theory Spec2Isabelle
  imports Complex_Main "HOL-Library.AList"
begin

section \<open>Numbers and errors\<close>

text \<open>
  Python floats are modelled as reals: every arithmetic step is exact. The results below
  are about the control flow and the formulas of the program, not about rounding.
  Python exceptions are values of the type \<open>error\<close>; a function that may raise returns
  \<open>error + 'a\<close>, with \<open>Inl\<close> for the exception.
\<close>

datatype error =
    ValueError string
  | KeyError string
  | IndexError
  | AttributeError
  | ControllerError string

text \<open>\<open>int(x)\<close> on a float truncates towards zero.\<close>

definition py_int :: "real \<Rightarrow> int" where
  "py_int x = (if 0 \<le> x then \<lfloor>x\<rfloor> else \<lceil>x\<rceil>)"

text \<open>\<open>x % m\<close> on floats, for a non-zero \<open>m\<close>: the result has the sign of \<open>m\<close>.\<close>

definition py_fmod :: "real \<Rightarrow> real \<Rightarrow> real" where
  "py_fmod x m = x - m * of_int \<lfloor>x / m\<rfloor>"

section \<open>Colours and palettes (color\_manager.py)\<close>

text \<open>
  \<open>colour.Color\<close> is a class of an external library. It is modelled by its RGB triple,
  each channel a float in \<open>[0, 1]\<close>; \<open>color.red\<close> and its siblings are the fields.
\<close>

record Color =
  red :: real
  green :: real
  blue :: real

definition valid_color :: "Color \<Rightarrow> bool" where
  "valid_color c \<longleftrightarrow>
     0 \<le> red c \<and> red c \<le> 1 \<and> 0 \<le> green c \<and> green c \<le> 1 \<and> 0 \<le> blue c \<and> blue c \<le> 1"

definition rgb :: "real \<Rightarrow> real \<Rightarrow> real \<Rightarrow> Color" where
  "rgb r g b = \<lparr>red = r, green = g, blue = b\<rparr>"

text \<open>The web colour names that the builtin palettes use, as the library resolves them.\<close>

definition Color_red :: Color where "Color_red = rgb 1 0 0"
definition Color_orange :: Color where "Color_orange = rgb 1 (165 / 255) 0"
definition Color_yellow :: Color where "Color_yellow = rgb 1 1 0"
definition Color_green :: Color where "Color_green = rgb 0 (128 / 255) 0"
definition Color_blue :: Color where "Color_blue = rgb 0 0 1"
definition Color_indigo :: Color where "Color_indigo = rgb (75 / 255) 0 (130 / 255)"
definition Color_violet :: Color where "Color_violet = rgb (238 / 255) (130 / 255) (238 / 255)"

record ColorPoint =
  color :: Color
  position :: real

definition ColorPoint :: "Color \<Rightarrow> real \<Rightarrow> ColorPoint" where
  "ColorPoint c p = \<lparr>color = c, position = p\<rparr>"

record Palette =
  name :: string
  colors :: "ColorPoint list"
  ptype :: string
  parameters :: "(string \<times> int) list option"

type_synonym palettes = "string \<rightharpoonup> Palette"

text \<open>\<open>_init_default_palettes\<close>: the two builtin palettes.\<close>

definition rainbow :: Palette where
  "rainbow = \<lparr>name = ''rainbow'',
     colors = [ColorPoint Color_red 0, ColorPoint Color_orange (166 / 10),
               ColorPoint Color_yellow (333 / 10), ColorPoint Color_green 50,
               ColorPoint Color_blue (666 / 10), ColorPoint Color_indigo (833 / 10),
               ColorPoint Color_violet 100],
     ptype = ''gradient'', parameters = None\<rparr>"

definition fire :: Palette where
  "fire = \<lparr>name = ''fire'',
     colors = [ColorPoint (rgb 1 0 0) 0, ColorPoint (rgb 1 (136 / 255) 0) 50,
               ColorPoint (rgb 1 1 0) 100],
     ptype = ''dynamic'', parameters = Some [(''variation'', 20)]\<rparr>"

definition init_default_palettes :: palettes where
  "init_default_palettes = [''rainbow'' \<mapsto> rainbow, ''fire'' \<mapsto> fire]"

subsection \<open>The standard library's colorsys\<close>

definition rgb_to_hsv :: "real \<Rightarrow> real \<Rightarrow> real \<Rightarrow> real \<times> real \<times> real" where
  "rgb_to_hsv r g b =
     (let maxc = max (max r g) b;
          minc = min (min r g) b;
          rangec = maxc - minc;
          v = maxc
      in if minc = maxc then (0, 0, v)
         else
           let s = rangec / maxc;
               rc = (maxc - r) / rangec;
               gc = (maxc - g) / rangec;
               bc = (maxc - b) / rangec;
               h = (if r = maxc then bc - gc
                    else if g = maxc then 2 + rc - bc
                    else 4 + gc - rc)
           in (py_fmod (h / 6) 1, s, v))"

definition hsv_to_rgb :: "real \<Rightarrow> real \<Rightarrow> real \<Rightarrow> real \<times> real \<times> real" where
  "hsv_to_rgb h s v =
     (if s = 0 then (v, v, v)
      else
        let i = py_int (h * 6);
            f = h * 6 - of_int i;
            p = v * (1 - s);
            q = v * (1 - s * f);
            t = v * (1 - s * (1 - f));
            i = i mod 6
        in if i = 0 then (v, t, p)
           else if i = 1 then (q, v, p)
           else if i = 2 then (p, v, t)
           else if i = 3 then (p, q, v)
           else if i = 4 then (t, p, v)
           else (v, p, q))"

subsection \<open>ColorManager\<close>

definition rgb_to_rgbw :: "int \<times> int \<times> int \<Rightarrow> int \<times> int \<times> int \<times> int" where
  "rgb_to_rgbw c =
     (case c of (r, g, b) \<Rightarrow>
        let w = min (min r g) b
        in if w > 0 then (r - w, g - w, b - w, w) else (r, g, b, w))"

definition interpolate_hue :: "real \<Rightarrow> real \<Rightarrow> real \<Rightarrow> real" where
  "interpolate_hue h1 h2 ratio =
     (let diff = h2 - h1;
          h2 = (if diff > 1 / 2 then h2 - 1 else if diff < - (1 / 2) then h2 + 1 else h2);
          h = h1 + (h2 - h1) * ratio
      in if h < 0 then h + 1 else if h > 1 then h - 1 else h)"

definition interpolate_color :: "Color \<Rightarrow> Color \<Rightarrow> real \<Rightarrow> Color" where
  "interpolate_color color1 color2 ratio =
     (case rgb_to_hsv (red color1) (green color1) (blue color1) of (h1, s1, v1) \<Rightarrow>
      case rgb_to_hsv (red color2) (green color2) (blue color2) of (h2, s2, v2) \<Rightarrow>
        let h = interpolate_hue h1 h2 ratio;
            s = s1 + (s2 - s1) * ratio;
            v = v1 + (v2 - v1) * ratio
        in case hsv_to_rgb h s v of (r, g, b) \<Rightarrow> rgb r g b)"

text \<open>\<open>min(xs, key=f)\<close>: the first element with the least key; nothing for an empty list.\<close>

fun min_key :: "('a \<Rightarrow> real) \<Rightarrow> 'a list \<Rightarrow> 'a option" where
  "min_key f [] = None"
| "min_key f (x # xs) = Some (fold (\<lambda>y m. if f y < f m then y else m) xs x)"

text \<open>
  The loop over \<open>range(len(colors) - 1)\<close>: the first pair of neighbours whose positions
  enclose the query decides; \<open>None\<close> when the loop ends without a return.
\<close>

fun find_segment :: "ColorPoint list \<Rightarrow> real \<Rightarrow> Color option" where
  "find_segment (c1 # c2 # cs) pos =
     (if position c1 \<le> pos \<and> pos \<le> position c2 then
        (let range_size = position c2 - position c1
         in if range_size = 0 then Some (color c1)
            else Some (interpolate_color (color c1) (color c2)
                         ((pos - position c1) / range_size)))
      else find_segment (c2 # cs) pos)"
| "find_segment cs pos = None"

text \<open>
  The result is \<open>Inl e\<close> when the call raises, \<open>Inr None\<close> when the function ends
  without a return statement (Python's \<open>None\<close>), and \<open>Inr (Some c)\<close> for a colour.
\<close>

definition get_color_at_position :: "palettes \<Rightarrow> string \<Rightarrow> real \<Rightarrow> error + Color option" where
  "get_color_at_position ps palette_name pos =
     (case ps palette_name of
        None \<Rightarrow> Inl (ValueError (''Palette '' @ palette_name @ '' not found''))
      | Some palette \<Rightarrow>
          if ptype palette = ''static'' then
            (case min_key (\<lambda>x. \<bar>position x - pos\<bar>) (colors palette) of
               None \<Rightarrow> Inl (ValueError ''min() arg is an empty sequence'')
             | Some x \<Rightarrow> Inr (Some (color x)))
          else if ptype palette = ''gradient'' then
            (let cs = sort_key position (colors palette)
             in case find_segment cs pos of
                  Some c \<Rightarrow> Inr (Some c)
                | None \<Rightarrow>
                    if cs = [] then Inl IndexError
                    else Inr (Some (if pos > position (last cs) then color (last cs)
                                    else color (hd cs))))
          else Inr None)"

section \<open>Light sequences and effect configurations\<close>

record LightCapabilities =
  supports_rgb :: bool
  supports_rgbw :: bool
  supports_rgbww :: bool
  supports_color_temp :: bool
  min_mireds :: "int option"
  max_mireds :: "int option"
  supports_transition :: bool
  supports_brightness :: bool

record LightState =
  ls_entity_id :: string
  ls_state :: "string option"
  ls_brightness :: "int option"
  ls_rgb_color :: "int list option"
  ls_rgbw_color :: "int list option"
  ls_rgbww_color :: "int list option"
  ls_color_temp :: "int option"

record LightSequence =
  seq_name :: string
  light_ids :: "string list"
  states :: "string \<rightharpoonup> LightState"
  capabilities :: "string \<rightharpoonup> LightCapabilities"

record EffectConfig =
  speed :: int
  intensity :: int
  palette_name :: string
  reverse :: bool
  mirror :: bool

text \<open>The dataclass defaults of \<open>EffectConfig\<close>.\<close>

definition EffectConfig_default :: EffectConfig where
  "EffectConfig_default =
     \<lparr>speed = 50, intensity = 100, palette_name = ''rainbow'', reverse = False, mirror = False\<rparr>"

section \<open>Frame generators (effect\_engine.py)\<close>

text \<open>
  The keyword arguments of one light update, a dict such as \<open>{"rgb_color": [r, g, b]}\<close>,
  and a frame, the dict from light id to its update.
\<close>

type_synonym params = "(string \<times> int list) list"
type_synonym frame = "string \<rightharpoonup> params"

text \<open>
  The list comprehension \<open>[int(c * config.intensity / 100) for c in [color.red * 255, ...]]\<close>.
  The lookup may have returned \<open>None\<close>, on which \<open>color.red\<close> raises AttributeError.
\<close>

definition apply_intensity :: "Color option \<Rightarrow> int \<Rightarrow> error + int list" where
  "apply_intensity color_opt intens =
     (case color_opt of
        None \<Rightarrow> Inl AttributeError
      | Some c \<Rightarrow>
          Inr (map (\<lambda>c. py_int (c * of_int intens / 100))
                 [red c * 255, green c * 255, blue c * 255]))"

text \<open>A \<open>for\<close> loop whose body may raise: the first exception ends it.\<close>

fun for_each :: "('a \<Rightarrow> 's \<Rightarrow> error + 's) \<Rightarrow> 'a list \<Rightarrow> 's \<Rightarrow> error + 's" where
  "for_each body [] s = Inr s"
| "for_each body (x # xs) s =
     (case body x s of Inl e \<Rightarrow> Inl e | Inr s' \<Rightarrow> for_each body xs s')"

text \<open>
  The body of the loop of \<open>RainbowEffect.generate_frame\<close>. The argument \<open>elapsed\<close>
  stands for \<open>time.time() - self._start_time\<close>.
\<close>

definition rainbow_body ::
    "palettes \<Rightarrow> LightSequence \<Rightarrow> EffectConfig \<Rightarrow> real \<Rightarrow> nat \<times> string \<Rightarrow> frame \<Rightarrow> error + frame" where
  "rainbow_body ps sequence config time_offset il updates =
     (case il of (i, light_id) \<Rightarrow>
        let num_lights = length (light_ids sequence);
            pos = py_fmod ((real i / real num_lights) * 100 + time_offset * 20) 100;
            pos = (if reverse config then 100 - pos else pos)
        in case get_color_at_position ps ''rainbow'' pos of
             Inl e \<Rightarrow> Inl e
           | Inr color_opt \<Rightarrow>
               (case apply_intensity color_opt (intensity config) of
                  Inl e \<Rightarrow> Inl e
                | Inr rgb_list \<Rightarrow>
                    let updates = updates(light_id \<mapsto> [(''rgb_color'', rgb_list)])
                    in if mirror config \<and> i \<ge> num_lights div 2 then
                         (let mirror_i = num_lights - 1 - i
                          in Inr (updates(light_ids sequence ! mirror_i \<mapsto>
                                    [(''rgb_color'', rgb_list)])))
                       else Inr updates))"

definition RainbowEffect_generate_frame ::
    "palettes \<Rightarrow> LightSequence \<Rightarrow> EffectConfig \<Rightarrow> real \<Rightarrow> error + frame" where
  "RainbowEffect_generate_frame ps sequence config elapsed =
     (let speed_factor = real_of_int (speed config) / 50;
          time_offset = elapsed * speed_factor
      in for_each (rainbow_body ps sequence config time_offset)
           (enumerate 0 (light_ids sequence)) Map.empty)"

text \<open>The body of the loop of \<open>ColorWipeEffect.generate_frame\<close>.\<close>

definition wipe_body ::
    "palettes \<Rightarrow> LightSequence \<Rightarrow> EffectConfig \<Rightarrow> int \<Rightarrow> nat \<times> string \<Rightarrow> frame \<Rightarrow> error + frame" where
  "wipe_body ps sequence config active_lights il updates =
     (case il of (i, light_id) \<Rightarrow>
        let num_lights = length (light_ids sequence);
            i = (if reverse config then int num_lights - 1 - int i else int i)
        in if i < active_lights then
             (case get_color_at_position ps (palette_name config)
                     ((real_of_int i / real num_lights) * 100) of
                Inl e \<Rightarrow> Inl e
              | Inr color_opt \<Rightarrow>
                  (case apply_intensity color_opt (intensity config) of
                     Inl e \<Rightarrow> Inl e
                   | Inr rgb_list \<Rightarrow> Inr (updates(light_id \<mapsto> [(''rgb_color'', rgb_list)]))))
           else Inr (updates(light_id \<mapsto> [(''rgb_color'', [0, 0, 0])])))"

definition active_lights :: "nat \<Rightarrow> EffectConfig \<Rightarrow> real \<Rightarrow> int" where
  "active_lights num_lights config elapsed =
     (let speed_factor = real_of_int (speed config) / 50;
          time_offset = elapsed * speed_factor
      in py_int (py_fmod (time_offset * 2) (real (num_lights + 1))))"

definition ColorWipeEffect_generate_frame ::
    "palettes \<Rightarrow> LightSequence \<Rightarrow> EffectConfig \<Rightarrow> real \<Rightarrow> error + frame" where
  "ColorWipeEffect_generate_frame ps sequence config elapsed =
     (let num_lights = length (light_ids sequence);
          active = active_lights num_lights config elapsed
      in case ps (palette_name config) of
           None \<Rightarrow> Inl (KeyError (palette_name config))
         | Some palette \<Rightarrow>
             for_each (wipe_body ps sequence config active)
               (enumerate 0 (light_ids sequence)) Map.empty)"

section \<open>The controller client (ha\_api.py)\<close>

text \<open>
  The lighting controller is outside the program. It is modelled by what it answers:
  \<open>answers n entity\<close> is the reply to \<open>get_state(entity)\<close> when that is the
  \<open>n\<close>-th request made, and \<open>accepts n\<close> tells whether the \<open>n\<close>-th request, a
  service call, gets status 200. The list \<open>received\<close> holds the service calls that
  were sent, newest first, each tagged with the coroutine that sent it.
\<close>

record ha_attributes =
  supported_color_modes :: "string list option"
  attr_min_mireds :: "int option"
  attr_max_mireds :: "int option"
  attr_transition :: "int option"
  attr_brightness :: "int option"
  attr_rgb_color :: "int list option"
  attr_rgbw_color :: "int list option"
  attr_rgbww_color :: "int list option"
  attr_color_temp :: "int option"

record ha_state =
  st_state :: "string option"
  st_attributes :: "ha_attributes option"

datatype issuer = Engine | Task nat

record command =
  who :: issuer
  domain :: string
  service :: string
  entity_id :: string
  data :: params

record HomeAssistantAPI =
  answers :: "nat \<Rightarrow> string \<Rightarrow> error + ha_state"
  accepts :: "nat \<Rightarrow> bool"
  requests :: nat
  received :: "command list"

definition get_state :: "HomeAssistantAPI \<Rightarrow> string \<Rightarrow> (error + ha_state) \<times> HomeAssistantAPI" where
  "get_state api ent = (answers api (requests api) ent, api\<lparr>requests := Suc (requests api)\<rparr>)"

definition call_service ::
    "HomeAssistantAPI \<Rightarrow> issuer \<Rightarrow> string \<Rightarrow> string \<Rightarrow> string \<Rightarrow> params \<Rightarrow>
     (error + unit) \<times> HomeAssistantAPI" where
  "call_service api by_whom dmn svc ent kwargs =
     (let api' = api\<lparr>requests := Suc (requests api),
                      received := \<lparr>who = by_whom, domain = dmn, service = svc,
                                    entity_id = ent, data = kwargs\<rparr> # received api\<rparr>
      in if accepts api (requests api) then (Inr (), api')
         else (Inl (ControllerError ''Failed to call service''), api'))"

section \<open>The light registry (light\_manager.py)\<close>

text \<open>A Python dict keeps insertion order: the sequences are an association list.\<close>

record LightManager =
  ha_api :: HomeAssistantAPI
  sequences :: "(string \<times> LightSequence) list"
  light_states :: "string \<rightharpoonup> LightState"

definition new_LightSequence :: "string \<Rightarrow> string list \<Rightarrow> LightSequence" where
  "new_LightSequence nm lights =
     \<lparr>seq_name = nm, light_ids = lights, states = Map.empty, capabilities = Map.empty\<rparr>"

definition no_attributes :: ha_attributes where
  "no_attributes = \<lparr>supported_color_modes = None, attr_min_mireds = None,
     attr_max_mireds = None, attr_transition = None, attr_brightness = None,
     attr_rgb_color = None, attr_rgbw_color = None, attr_rgbww_color = None,
     attr_color_temp = None\<rparr>"

definition attributes_of :: "ha_state \<Rightarrow> ha_attributes" where
  "attributes_of st = (case st_attributes st of None \<Rightarrow> no_attributes | Some a \<Rightarrow> a)"

definition color_modes_of :: "ha_attributes \<Rightarrow> string list" where
  "color_modes_of a = (case supported_color_modes a of None \<Rightarrow> [] | Some ms \<Rightarrow> ms)"

definition fetch_capabilities ::
    "LightManager \<Rightarrow> string \<Rightarrow> LightSequence \<Rightarrow> (error + LightSequence) \<times> LightManager" where
  "fetch_capabilities lm ent sq =
     (case get_state (ha_api lm) ent of
        (Inl e, api') \<Rightarrow> (Inl e, lm\<lparr>ha_api := api'\<rparr>)
      | (Inr st, api') \<Rightarrow>
          let attributes = attributes_of st;
              caps = \<lparr>supports_rgb = ''rgb_color'' \<in> set (color_modes_of attributes),
                      supports_rgbw = ''rgbw'' \<in> set (color_modes_of attributes),
                      supports_rgbww = ''rgbww'' \<in> set (color_modes_of attributes),
                      supports_color_temp = ''color_temp'' \<in> set (color_modes_of attributes),
                      min_mireds = attr_min_mireds attributes,
                      max_mireds = attr_max_mireds attributes,
                      supports_transition = (attr_transition attributes \<noteq> None),
                      supports_brightness = (attr_brightness attributes \<noteq> None)\<rparr>
          in (Inr (sq\<lparr>capabilities := (capabilities sq)(ent \<mapsto> caps)\<rparr>), lm\<lparr>ha_api := api'\<rparr>))"

definition fetch_state ::
    "LightManager \<Rightarrow> string \<Rightarrow> LightSequence \<Rightarrow> (error + LightSequence) \<times> LightManager" where
  "fetch_state lm ent sq =
     (case get_state (ha_api lm) ent of
        (Inl e, api') \<Rightarrow> (Inl e, lm\<lparr>ha_api := api'\<rparr>)
      | (Inr st, api') \<Rightarrow>
          let attributes = attributes_of st;
              light_state = \<lparr>ls_entity_id = ent, ls_state = st_state st,
                             ls_brightness = attr_brightness attributes,
                             ls_rgb_color = attr_rgb_color attributes,
                             ls_rgbw_color = attr_rgbw_color attributes,
                             ls_rgbww_color = attr_rgbww_color attributes,
                             ls_color_temp = attr_color_temp attributes\<rparr>
          in (Inr (sq\<lparr>states := (states sq)(ent \<mapsto> light_state)\<rparr>),
              lm\<lparr>ha_api := api', light_states := (light_states lm)(ent \<mapsto> light_state)\<rparr>))"

text \<open>The loop of \<open>create_sequence\<close>: capabilities, then state, light by light.\<close>

fun fetch_all ::
    "LightManager \<Rightarrow> string list \<Rightarrow> LightSequence \<Rightarrow> (error + LightSequence) \<times> LightManager" where
  "fetch_all lm [] sq = (Inr sq, lm)"
| "fetch_all lm (ent # rest) sq =
     (case fetch_capabilities lm ent sq of
        (Inl e, lm1) \<Rightarrow> (Inl e, lm1)
      | (Inr sq1, lm1) \<Rightarrow>
          (case fetch_state lm1 ent sq1 of
             (Inl e, lm2) \<Rightarrow> (Inl e, lm2)
           | (Inr sq2, lm2) \<Rightarrow> fetch_all lm2 rest sq2))"

definition create_sequence ::
    "LightManager \<Rightarrow> string \<Rightarrow> string list \<Rightarrow> (error + LightSequence) \<times> LightManager" where
  "create_sequence lm nm lights =
     (case fetch_all lm lights (new_LightSequence nm lights) of
        (Inl e, lm') \<Rightarrow> (Inl e, lm')
      | (Inr sq, lm') \<Rightarrow> (Inr sq, lm'\<lparr>sequences := AList.update nm sq (sequences lm')\<rparr>))"

definition get_sequence :: "LightManager \<Rightarrow> string \<Rightarrow> LightSequence option" where
  "get_sequence lm nm = map_of (sequences lm) nm"

text \<open>
  The loop of \<open>update_light\<close> over \<open>self.sequences.values()\<close>, by key: every sequence
  that holds the light has its cached state fetched again.
\<close>

fun refresh_light :: "LightManager \<Rightarrow> string \<Rightarrow> string list \<Rightarrow> (error + unit) \<times> LightManager" where
  "refresh_light lm ent [] = (Inr (), lm)"
| "refresh_light lm ent (nm # rest) =
     (case map_of (sequences lm) nm of
        None \<Rightarrow> refresh_light lm ent rest
      | Some sq \<Rightarrow>
          if ent \<in> set (light_ids sq) then
            (case fetch_state lm ent sq of
               (Inl e, lm1) \<Rightarrow> (Inl e, lm1)
             | (Inr sq1, lm1) \<Rightarrow>
                 refresh_light (lm1\<lparr>sequences := AList.update nm sq1 (sequences lm1)\<rparr>) ent rest)
          else refresh_light lm ent rest)"

definition update_light ::
    "LightManager \<Rightarrow> issuer \<Rightarrow> string \<Rightarrow> params \<Rightarrow> (error + unit) \<times> LightManager" where
  "update_light lm by_whom ent kwargs =
     (case call_service (ha_api lm) by_whom ''light'' ''turn_on'' ent kwargs of
        (Inl e, api') \<Rightarrow> (Inl e, lm\<lparr>ha_api := api'\<rparr>)
      | (Inr u, api') \<Rightarrow> refresh_light (lm\<lparr>ha_api := api'\<rparr>) ent (map fst (sequences lm)))"

text \<open>The loop of \<open>turn_off_sequence\<close>: a failed call is logged and the loop goes on.\<close>

fun turn_off_all :: "HomeAssistantAPI \<Rightarrow> issuer \<Rightarrow> string list \<Rightarrow> HomeAssistantAPI" where
  "turn_off_all api by_whom [] = api"
| "turn_off_all api by_whom (ent # rest) =
     turn_off_all (snd (call_service api by_whom ''light'' ''turn_off'' ent [])) by_whom rest"

definition turn_off_sequence ::
    "LightManager \<Rightarrow> issuer \<Rightarrow> string \<Rightarrow> (error + unit) \<times> LightManager" where
  "turn_off_sequence lm by_whom sequence_name =
     (case map_of (sequences lm) sequence_name of
        None \<Rightarrow> (Inl (ValueError (''Sequence '' @ sequence_name @ '' not found'')), lm)
      | Some sq \<Rightarrow> (Inr (), lm\<lparr>ha_api := turn_off_all (ha_api lm) by_whom (light_ids sq)\<rparr>))"

section \<open>The effect engine (effect\_engine.py)\<close>

datatype effect = RainbowEffect | ColorWipeEffect | TwinkleEffect

definition effects :: "string \<rightharpoonup> effect" where
  "effects = [''rainbow'' \<mapsto> RainbowEffect, ''color_wipe'' \<mapsto> ColorWipeEffect,
              ''twinkle'' \<mapsto> TwinkleEffect]"

text \<open>
  An asyncio task running \<open>_run_effect\<close>: it is running, or it ended by cancellation,
  or it ended with the exception that a light update raised. A task is named by a
  number; \<open>tasks\<close> is the table of the tasks created so far.
\<close>

datatype task_status = Running | Cancelled | Failed error

record task =
  task_sequence :: LightSequence
  task_effect :: effect
  task_config :: EffectConfig
  task_status :: task_status

record EffectEngine =
  light_manager :: LightManager
  color_manager :: palettes
  running_effects :: "(string \<times> (effect \<times> EffectConfig \<times> nat)) list"
  tasks :: "nat \<rightharpoonup> task"
  next_task :: nat

definition new_EffectEngine :: "LightManager \<Rightarrow> palettes \<Rightarrow> EffectEngine" where
  "new_EffectEngine lm cm =
     \<lparr>light_manager = lm, color_manager = cm, running_effects = [], tasks = Map.empty,
      next_task = 0\<rparr>"

text \<open>
  \<open>task.cancel()\<close> followed by \<open>await task\<close>: a task that is still running ends by
  cancellation, and the await raises CancelledError, which \<open>stop_effect\<close> swallows; a
  task that has ended with an exception raises that exception again.
\<close>

definition cancel_and_await :: "EffectEngine \<Rightarrow> nat \<Rightarrow> (error + unit) \<times> EffectEngine" where
  "cancel_and_await e t =
     (case tasks e t of
        None \<Rightarrow> (Inr (), e)
      | Some tk \<Rightarrow>
          (case task_status tk of
             Failed err \<Rightarrow> (Inl err, e)
           | Cancelled \<Rightarrow> (Inr (), e)
           | Running \<Rightarrow> (Inr (), e\<lparr>tasks := (tasks e)(t \<mapsto> tk\<lparr>task_status := Cancelled\<rparr>)\<rparr>)))"

definition stop_effect :: "EffectEngine \<Rightarrow> string \<Rightarrow> (error + unit) \<times> EffectEngine" where
  "stop_effect e sequence_name =
     (case map_of (running_effects e) sequence_name of
        None \<Rightarrow> (Inr (), e)
      | Some (eff, config, t) \<Rightarrow>
          (case cancel_and_await e t of
             (Inl err, e1) \<Rightarrow> (Inl err, e1)
           | (Inr u, e1) \<Rightarrow>
               let e2 = e1\<lparr>running_effects := AList.delete sequence_name (running_effects e1)\<rparr>
               in case turn_off_sequence (light_manager e2) Engine sequence_name of
                    (Inl err, lm') \<Rightarrow> (Inl err, e2\<lparr>light_manager := lm'\<rparr>)
                  | (Inr u, lm') \<Rightarrow> (Inr (), e2\<lparr>light_manager := lm'\<rparr>)))"

definition start_effect ::
    "EffectEngine \<Rightarrow> string \<Rightarrow> string \<Rightarrow> EffectConfig \<Rightarrow> (error + unit) \<times> EffectEngine" where
  "start_effect e sequence_name effect_name config =
     (case stop_effect e sequence_name of
        (Inl err, e1) \<Rightarrow> (Inl err, e1)
      | (Inr u, e1) \<Rightarrow>
          (case get_sequence (light_manager e1) sequence_name of
             None \<Rightarrow> (Inl (ValueError (''Sequence '' @ sequence_name @ '' not found'')), e1)
           | Some sq \<Rightarrow>
               (case effects effect_name of
                  None \<Rightarrow> (Inl (ValueError (''Effect '' @ effect_name @ '' not found'')), e1)
                | Some eff \<Rightarrow>
                    let t = next_task e1;
                        tk = \<lparr>task_sequence = sq, task_effect = eff, task_config = config,
                              task_status = Running\<rparr>
                    in (Inr (),
                        e1\<lparr>tasks := (tasks e1)(t \<mapsto> tk), next_task := Suc t,
                           running_effects :=
                             AList.update sequence_name (eff, config, t) (running_effects e1)\<rparr>))))"

text \<open>
  One pass of the inner loop of \<open>_run_effect\<close> in task \<open>t\<close>: one light update of the
  frame. Only a running task takes a step; an exception of \<open>update_light\<close> is not
  caught by \<open>_run_effect\<close> and ends the task.
\<close>

definition task_update :: "EffectEngine \<Rightarrow> nat \<Rightarrow> string \<Rightarrow> params \<Rightarrow> EffectEngine" where
  "task_update e t ent kwargs =
     (case tasks e t of
        None \<Rightarrow> e
      | Some tk \<Rightarrow>
          if task_status tk = Running then
            (case update_light (light_manager e) (Task t) ent kwargs of
               (Inl err, lm') \<Rightarrow>
                 e\<lparr>light_manager := lm', tasks := (tasks e)(t \<mapsto> tk\<lparr>task_status := Failed err\<rparr>)\<rparr>
             | (Inr u, lm') \<Rightarrow> e\<lparr>light_manager := lm'\<rparr>)
          else e)"

section \<open>The application (main.py)\<close>

text \<open>
  A service call as the event stream delivers it. The fields of \<open>call['data']\<close> and of
  its \<open>config\<close> dict may be missing.
\<close>

record config_data =
  cd_speed :: "int option"
  cd_intensity :: "int option"
  cd_palette_name :: "string option"
  cd_reverse :: "bool option"
  cd_mirror :: "bool option"

record service_call =
  call_service_name :: string
  data_sequence :: "string option"
  data_effect :: "string option"
  data_config :: "config_data option"

text \<open>\<open>EffectConfig(**d)\<close>: a field that is given replaces the default.\<close>

definition make_EffectConfig :: "config_data option \<Rightarrow> EffectConfig" where
  "make_EffectConfig d =
     (case d of
        None \<Rightarrow> EffectConfig_default
      | Some c \<Rightarrow>
          \<lparr>speed = (case cd_speed c of None \<Rightarrow> 50 | Some v \<Rightarrow> v),
           intensity = (case cd_intensity c of None \<Rightarrow> 100 | Some v \<Rightarrow> v),
           palette_name = (case cd_palette_name c of None \<Rightarrow> ''rainbow'' | Some v \<Rightarrow> v),
           reverse = (case cd_reverse c of None \<Rightarrow> False | Some v \<Rightarrow> v),
           mirror = (case cd_mirror c of None \<Rightarrow> False | Some v \<Rightarrow> v)\<rparr>)"

text \<open>
  \<open>handle_service_call\<close> catches every exception and logs it: the result holds the
  logged exception, if any, and the engine as the call leaves it.
\<close>

definition handle_service_call :: "EffectEngine \<Rightarrow> service_call \<Rightarrow> error option \<times> EffectEngine" where
  "handle_service_call e call =
     (if call_service_name call = ''start_effect'' then
        (case data_sequence call of
           None \<Rightarrow> (Some (KeyError ''sequence''), e)
         | Some sequence_name \<Rightarrow>
             (case data_effect call of
                None \<Rightarrow> (Some (KeyError ''effect''), e)
              | Some effect_name \<Rightarrow>
                  (case start_effect e sequence_name effect_name
                          (make_EffectConfig (data_config call)) of
                     (Inl err, e') \<Rightarrow> (Some err, e')
                   | (Inr u, e') \<Rightarrow> (None, e'))))
      else if call_service_name call = ''stop_effect'' then
        (case data_sequence call of
           None \<Rightarrow> (Some (KeyError ''sequence''), e)
         | Some sequence_name \<Rightarrow>
             (case stop_effect e sequence_name of
                (Inl err, e') \<Rightarrow> (Some err, e')
              | (Inr u, e') \<Rightarrow> (None, e')))
      else (None, e))"

text \<open>
  What happens to an engine, one thing at a time: the service calls, which the event
  stream hands over one after the other, each awaited to its end; the creation of a
  sequence; and the light updates of the running tasks.
\<close>

datatype event =
    StartEffect string string EffectConfig
  | StopEffect string
  | CreateSequence string "string list"
  | TaskUpdate nat string params

fun apply_event :: "EffectEngine \<Rightarrow> event \<Rightarrow> EffectEngine" where
  "apply_event e (StartEffect nm eff config) = snd (start_effect e nm eff config)"
| "apply_event e (StopEffect nm) = snd (stop_effect e nm)"
| "apply_event e (CreateSequence nm lights) =
     e\<lparr>light_manager := snd (create_sequence (light_manager e) nm lights)\<rparr>"
| "apply_event e (TaskUpdate t ent kwargs) = task_update e t ent kwargs"

definition run_events :: "EffectEngine \<Rightarrow> event list \<Rightarrow> EffectEngine" where
  "run_events e evs = fold (\<lambda>ev e. apply_event e ev) evs e"

section \<open>The formulas of the specification\<close>

text \<open>
  These definitions follow the words of the specification, not the code; the theorems
  below compare them with what the code computes. The remainder of a real number by a
  positive one, \<open>x mod m\<close>, is the one that \<open>py_fmod\<close> defines.
\<close>

definition spec_speedFactor :: "EffectConfig \<Rightarrow> real" where
  "spec_speedFactor config = real_of_int (speed config) / 50"

text \<open>
  Rainbow: the position of light \<open>i\<close> of \<open>N\<close> is
  \<open>((i/N)*100 + elapsedSeconds*speedFactor*20) mod 100\<close>, and \<open>100 - position\<close> if
  \<open>reverse\<close> is set.
\<close>

definition spec_rainbow_position :: "nat \<Rightarrow> EffectConfig \<Rightarrow> real \<Rightarrow> nat \<Rightarrow> real" where
  "spec_rainbow_position N config elapsedSeconds i =
     (let p = py_fmod ((real i / real N) * 100
                        + elapsedSeconds * spec_speedFactor config * 20) 100
      in if reverse config then 100 - p else p)"

text \<open>A colour scaled by \<open>intensity/100\<close> per RGB channel, truncating.\<close>

definition spec_scaled :: "Color \<Rightarrow> int \<Rightarrow> int list" where
  "spec_scaled c intens =
     map (\<lambda>ch. py_int (ch * 255 * (of_int intens / 100))) [red c, green c, blue c]"

text \<open>ColorWipe: \<open>activeCount = floor(elapsedSeconds*speedFactor*2) mod (N+1)\<close>.\<close>

definition spec_activeCount :: "nat \<Rightarrow> EffectConfig \<Rightarrow> real \<Rightarrow> int" where
  "spec_activeCount N config elapsedSeconds =
     \<lfloor>elapsedSeconds * spec_speedFactor config * 2\<rfloor> mod (int N + 1)"

text \<open>
  The frame of the rainbow effect as the specification describes it: every light of the
  sequence has an update and no other light has one; without \<open>mirror\<close>, light \<open>i\<close>
  has the palette colour at its position, scaled; with \<open>mirror\<close>, for every
  \<open>i \<ge> N div 2\<close>, light \<open>i\<close> and light \<open>N - 1 - i\<close> both have the update
  computed for light \<open>i\<close>.
\<close>

definition spec_rainbow_update ::
    "palettes \<Rightarrow> nat \<Rightarrow> EffectConfig \<Rightarrow> real \<Rightarrow> nat \<Rightarrow> params option" where
  "spec_rainbow_update ps N config elapsedSeconds i =
     (case get_color_at_position ps ''rainbow''
             (spec_rainbow_position N config elapsedSeconds i) of
        Inr (Some c) \<Rightarrow> Some [(''rgb_color'', spec_scaled c (intensity config))]
      | _ \<Rightarrow> None)"

text \<open>
  The assignments of the loop for light \<open>i\<close>: its own update, and with \<open>mirror\<close>, for
  \<open>i \<ge> N div 2\<close>, the same update for light \<open>N - 1 - i\<close>.
\<close>

definition spec_rainbow_assign ::
    "palettes \<Rightarrow> LightSequence \<Rightarrow> EffectConfig \<Rightarrow> real \<Rightarrow> nat \<Rightarrow> frame \<Rightarrow> frame" where
  "spec_rainbow_assign ps sq config elapsedSeconds i fr =
     (let ids = light_ids sq; N = length ids;
          upd = spec_rainbow_update ps N config elapsedSeconds i;
          fr1 = fr(ids ! i := upd)
      in if mirror config \<and> N div 2 \<le> i then fr1(ids ! (N - 1 - i) := upd) else fr1)"

definition spec_rainbow_frame ::
    "palettes \<Rightarrow> LightSequence \<Rightarrow> EffectConfig \<Rightarrow> real \<Rightarrow> frame \<Rightarrow> bool" where
  "spec_rainbow_frame ps sq config elapsedSeconds fr \<longleftrightarrow>
     (let ids = light_ids sq; N = length ids;
          upd = spec_rainbow_update ps N config elapsedSeconds
      in dom fr = set ids
         \<and> (\<not> mirror config \<longrightarrow> (\<forall>i<N. upd i \<noteq> None \<and> fr (ids ! i) = upd i))
         \<and> (mirror config \<longrightarrow>
              (\<forall>i<N. N div 2 \<le> i \<longrightarrow>
                 upd i \<noteq> None \<and> fr (ids ! i) = upd i \<and> fr (ids ! (N - 1 - i)) = upd i)))"

text \<open>
  The frame of the colour wipe as the specification describes it: with \<open>i\<close> the index
  of a light, reversed first if \<open>reverse\<close> is set, the light has the palette colour at
  position \<open>(i/N)*100\<close>, scaled, if \<open>i < activeCount\<close>, and all channels zero otherwise.
\<close>

definition spec_wipe_update ::
    "palettes \<Rightarrow> nat \<Rightarrow> EffectConfig \<Rightarrow> real \<Rightarrow> nat \<Rightarrow> params option" where
  "spec_wipe_update ps N config elapsedSeconds j =
     (let i = (if reverse config then N - 1 - j else j)
      in if int i < spec_activeCount N config elapsedSeconds then
           (case get_color_at_position ps (palette_name config) ((real i / real N) * 100) of
              Inr (Some c) \<Rightarrow> Some [(''rgb_color'', spec_scaled c (intensity config))]
            | _ \<Rightarrow> None)
         else Some [(''rgb_color'', [0, 0, 0])])"

definition spec_wipe_assign ::
    "palettes \<Rightarrow> LightSequence \<Rightarrow> EffectConfig \<Rightarrow> real \<Rightarrow> nat \<Rightarrow> frame \<Rightarrow> frame" where
  "spec_wipe_assign ps sq config elapsedSeconds j fr =
     fr(light_ids sq ! j := spec_wipe_update ps (length (light_ids sq)) config elapsedSeconds j)"

definition spec_wipe_frame ::
    "palettes \<Rightarrow> LightSequence \<Rightarrow> EffectConfig \<Rightarrow> real \<Rightarrow> frame \<Rightarrow> bool" where
  "spec_wipe_frame ps sq config elapsedSeconds fr \<longleftrightarrow>
     (let ids = light_ids sq; N = length ids;
          upd = spec_wipe_update ps N config elapsedSeconds
      in dom fr = set ids \<and> (\<forall>j<N. upd j \<noteq> None \<and> fr (ids ! j) = upd j))"

text \<open>
  The scheduler's invariant, in the words of the specification. A RunningEffect record
  is an entry of \<open>running_effects\<close>; "at most one record per sequence name" says that
  no name occurs twice among the keys.
\<close>

definition one_record_per_sequence :: "EffectEngine \<Rightarrow> bool" where
  "one_record_per_sequence e \<longleftrightarrow> distinct (map fst (running_effects e))"

text \<open>The name of the sequence that a task was started for.\<close>

definition task_name :: "EffectEngine \<Rightarrow> nat \<Rightarrow> string option" where
  "task_name e t = map_option (\<lambda>tk. seq_name (task_sequence tk)) (tasks e t)"

text \<open>
  Every task that is still running is the task of the record of its sequence: a
  sequence has at most one running task, the one of its record.
\<close>

definition live_tasks_recorded :: "EffectEngine \<Rightarrow> bool" where
  "live_tasks_recorded e \<longleftrightarrow>
     (\<forall>t tk. tasks e t = Some tk \<and> task_status tk = Running \<longrightarrow>
        map_of (running_effects e) (seq_name (task_sequence tk))
          = Some (task_effect tk, task_config tk, t))"

text \<open>
  No frame of a superseded effect after a frame of its successor: in the list of the
  commands sent, newest first, a light update of task \<open>t\<close> is never newer than an update
  of a task that was started later for the same sequence.
\<close>

fun no_stale_updates :: "(nat \<Rightarrow> string option) \<Rightarrow> command list \<Rightarrow> bool" where
  "no_stale_updates nm [] = True"
| "no_stale_updates nm (c # cs) =
     ((\<forall>c'\<in>set cs.
         case (who c, who c') of
           (Task t, Task t') \<Rightarrow> nm t = nm t' \<longrightarrow> t' \<le> t
         | _ \<Rightarrow> True)
      \<and> no_stale_updates nm cs)"

text \<open>
  What holds of the engine at every moment between two events: a sequence is stored
  under its own name; no sequence name has two records; the tasks are numbered below
  \<open>next_task\<close>; the task of a record was started for the sequence of the record; the
  running tasks are the tasks of the records; every light update that was sent comes
  from a task of the table, and none from a task newer than the task of the record of
  its sequence; and no update is stale.
\<close>

definition engine_inv :: "EffectEngine \<Rightarrow> bool" where
  "engine_inv e \<longleftrightarrow>
     (\<forall>nm sq. map_of (sequences (light_manager e)) nm = Some sq \<longrightarrow> seq_name sq = nm)
   \<and> one_record_per_sequence e
   \<and> (\<forall>t tk. tasks e t = Some tk \<longrightarrow> t < next_task e)
   \<and> (\<forall>nm k cfg t. map_of (running_effects e) nm = Some (k, cfg, t) \<longrightarrow>
         task_name e t = Some nm)
   \<and> live_tasks_recorded e
   \<and> (\<forall>c\<in>set (received (ha_api (light_manager e))). \<forall>t. who c = Task t \<longrightarrow>
         tasks e t \<noteq> None)
   \<and> (\<forall>nm k cfg t. map_of (running_effects e) nm = Some (k, cfg, t) \<longrightarrow>
         (\<forall>c\<in>set (received (ha_api (light_manager e))). \<forall>t'.
            who c = Task t' \<longrightarrow> task_name e t' = Some nm \<longrightarrow> t' \<le> t))
   \<and> no_stale_updates (task_name e) (received (ha_api (light_manager e)))"

text \<open>The engine at the start of the process: no sequence, no effect, no command sent.\<close>

definition new_LightManager ::
    "(nat \<Rightarrow> string \<Rightarrow> error + ha_state) \<Rightarrow> (nat \<Rightarrow> bool) \<Rightarrow> LightManager" where
  "new_LightManager ans acc =
     \<lparr>ha_api = \<lparr>answers = ans, accepts = acc, requests = 0, received = []\<rparr>,
      sequences = [], light_states = Map.empty\<rparr>"

text \<open>The off commands that \<open>turn_off_sequence\<close> sends for a list of lights, newest first.\<close>

definition off_commands :: "string list \<Rightarrow> command list" where
  "off_commands lights =
     rev (map (\<lambda>ent. \<lparr>who = Engine, domain = ''light'', service = ''turn_off'',
                       entity_id = ent, data = []\<rparr>) lights)"

text \<open>Clamping a speed or an intensity into its range \<open>1\<close> to \<open>100\<close>.\<close>

definition spec_clamp :: "int \<Rightarrow> int" where
  "spec_clamp x = max 1 (min 100 x)"

section \<open>Properties of the palette store\<close>

text \<open>
  C1. The claim: for every registered palette with at least one colour stop, the builtin
  dynamic palette "fire" included, and every position in \<open>[0, 100]\<close>,
  \<open>get_color_at_position\<close> returns a colour and never \<open>None\<close>. The function has a
  branch for the types "static" and "gradient" only; for the builtin palette "fire", of
  type "dynamic", it reaches its end without a return statement: at position 50 the
  result is \<open>None\<close>.
\<close>

theorem fire_lookup_returns_None:
  "get_color_at_position init_default_palettes ''fire'' 50 = Inr None"
  by (simp add: get_color_at_position_def init_default_palettes_def fire_def)

text \<open>
  C3, the claim as stated: the result of \<open>_interpolate_hue\<close> lies in \<open>[0, 1)\<close>. For
  the hues \<open>0.75\<close> and \<open>0\<close> and the ratio \<open>1\<close> the result is \<open>1\<close>: the last test is
  \<open>h > 1\<close>, so a full turn is not wrapped.
\<close>

theorem interpolate_hue_full_turn: "\<not> interpolate_hue (3 / 4) 0 1 < 1"
  by (simp add: interpolate_hue_def Let_def)

text \<open>
  C3, amended: for hues \<open>h1\<close>, \<open>h2\<close> in \<open>[0, 1)\<close> and a ratio in \<open>[0, 1]\<close> the result
  is \<open>h1 + d * ratio\<close> up to a whole number of turns, where \<open>d\<close> is the hue difference
  along the shorter arc (it is \<open>h2 - h1\<close> up to a whole turn and at most half a turn in
  size), and the result lies in \<open>[0, 1]\<close>. For the hues \<open>0.05\<close> and \<open>0.95\<close> and the
  ratio \<open>0.5\<close> the result is \<open>0\<close>.
\<close>

theorem interpolate_hue_shorter_arc:
  assumes "0 \<le> h1" "h1 < 1" "0 \<le> h2" "h2 < 1" "0 \<le> ratio" "ratio \<le> 1"
  shows "(\<exists>d. \<bar>d\<bar> \<le> 1 / 2 \<and> (\<exists>k::int. d = h2 - h1 + of_int k)
              \<and> (\<exists>m::int. interpolate_hue h1 h2 ratio = h1 + d * ratio + of_int m))
         \<and> 0 \<le> interpolate_hue h1 h2 ratio \<and> interpolate_hue h1 h2 ratio \<le> 1
         \<and> interpolate_hue (5 / 100) (95 / 100) (1 / 2) = 0"
proof -
  define d where
    "d = (if h2 - h1 > 1 / 2 then h2 - h1 - 1
          else if h2 - h1 < - (1 / 2) then h2 - h1 + 1 else h2 - h1)"
  define h where "h = h1 + d * ratio"
  have d_abs: "\<bar>d\<bar> \<le> 1 / 2"
  proof -
    consider "h2 - h1 > 1 / 2" | "h2 - h1 < - (1 / 2)"
      | "\<not> h2 - h1 > 1 / 2" "\<not> h2 - h1 < - (1 / 2)"
      by linarith
    then show ?thesis
    proof cases
      case 1
      then have "d = h2 - h1 - 1" by (simp add: d_def)
      then show ?thesis using 1 assms by linarith
    next
      case 2
      then have "d = h2 - h1 + 1" by (simp add: d_def)
      then show ?thesis using 2 assms by linarith
    next
      case 3
      then have "d = h2 - h1" by (simp add: d_def)
      then show ?thesis using 3 by linarith
    qed
  qed
  have d_int: "\<exists>k::int. d = h2 - h1 + of_int k"
  proof -
    have "d = h2 - h1 + of_int (- 1) \<or> d = h2 - h1 + of_int 1 \<or> d = h2 - h1 + of_int 0"
      by (auto simp: d_def)
    then show ?thesis by blast
  qed
  have wrapped: "(if h2 - h1 > 1 / 2 then h2 - 1
                  else if h2 - h1 < - (1 / 2) then h2 + 1 else h2) = h1 + d"
    by (simp add: d_def)
  have res: "interpolate_hue h1 h2 ratio = (if h < 0 then h + 1 else if h > 1 then h - 1 else h)"
    unfolding interpolate_hue_def Let_def wrapped h_def by simp
  have "\<bar>d * ratio\<bar> \<le> 1 / 2"
  proof -
    have "\<bar>d * ratio\<bar> = \<bar>d\<bar> * ratio" using assms by (simp add: abs_mult)
    also have "\<dots> \<le> \<bar>d\<bar> * 1" using assms by (intro mult_left_mono) auto
    finally show ?thesis using d_abs by simp
  qed
  then have h_rng: "- (1 / 2) \<le> h" "h \<le> 3 / 2"
    using assms by (auto simp: h_def abs_le_iff)
  have turns: "\<exists>m::int. interpolate_hue h1 h2 ratio = h1 + d * ratio + of_int m"
  proof -
    have "interpolate_hue h1 h2 ratio = h + of_int 1
        \<or> interpolate_hue h1 h2 ratio = h + of_int (- 1)
        \<or> interpolate_hue h1 h2 ratio = h + of_int 0"
      by (auto simp: res)
    then show ?thesis unfolding h_def by blast
  qed
  have rng: "0 \<le> interpolate_hue h1 h2 ratio \<and> interpolate_hue h1 h2 ratio \<le> 1"
    using h_rng by (auto simp: res)
  have ex: "interpolate_hue (5 / 100) (95 / 100) (1 / 2) = 0"
    by (simp add: interpolate_hue_def Let_def)
  show ?thesis using d_abs d_int turns rng ex by blast
qed

theorem interpolate_hue_shorter_arc_witness:
  "(\<exists>d. \<bar>d\<bar> \<le> 1 / 2 \<and> (\<exists>k::int. d = 0 - 3 / 4 + of_int k)
        \<and> (\<exists>m::int. interpolate_hue (3 / 4) 0 1 = 3 / 4 + d * 1 + of_int m))
   \<and> 0 \<le> interpolate_hue (3 / 4) 0 1 \<and> interpolate_hue (3 / 4) 0 1 \<le> 1
   \<and> interpolate_hue (5 / 100) (95 / 100) (1 / 2) = 0"
  using interpolate_hue_shorter_arc [of "3 / 4" 0 1] by simp

subsection \<open>The round trip through HSV\<close>

text \<open>
  In exact arithmetic \<open>hsv_to_rgb\<close> undoes \<open>rgb_to_hsv\<close> on every colour with
  non-negative channels, and the hue lies in \<open>[0, 1)\<close>. The proof goes through the six
  sectors of the hue circle.
\<close>

lemma py_int_nonneg: "0 \<le> x \<Longrightarrow> py_int x = \<lfloor>x\<rfloor>"
  by (simp add: py_int_def)

lemma py_fmod_unit: "0 \<le> x \<Longrightarrow> x < 1 \<Longrightarrow> py_fmod x 1 = x"
proof -
  assume "0 \<le> x" "x < 1"
  then have "\<lfloor>x\<rfloor> = 0" by (simp add: floor_eq_iff)
  then show ?thesis by (simp add: py_fmod_def)
qed

lemma py_fmod_unit_neg: "- 1 \<le> x \<Longrightarrow> x < 0 \<Longrightarrow> py_fmod x 1 = x + 1"
proof -
  assume "- 1 \<le> x" "x < 0"
  then have "\<lfloor>x\<rfloor> = - 1" by (simp add: floor_eq_iff)
  then show ?thesis by (simp add: py_fmod_def)
qed

lemma hsv_sector:
  assumes "s \<noteq> 0" "0 \<le> f" "f < 1" "0 \<le> k" "k < 6"
  shows "hsv_to_rgb ((of_int k + f) / 6) s v =
     (if k = 0 then (v, v * (1 - s * (1 - f)), v * (1 - s))
      else if k = 1 then (v * (1 - s * f), v, v * (1 - s))
      else if k = 2 then (v * (1 - s), v, v * (1 - s * (1 - f)))
      else if k = 3 then (v * (1 - s), v * (1 - s * f), v)
      else if k = 4 then (v * (1 - s * (1 - f)), v * (1 - s), v)
      else (v, v * (1 - s), v * (1 - s * f)))"
proof -
  have eq: "(of_int k + f) / 6 * 6 = of_int k + f" by simp
  have "\<lfloor>of_int k + f\<rfloor> = k" using assms(2,3) by (simp add: floor_eq_iff)
  moreover have "0 \<le> of_int k + f" using assms(2,4) by simp
  ultimately have "py_int (of_int k + f) = k" by (simp only: py_int_def if_True)
  then have i: "py_int ((of_int k + f) / 6 * 6) = k" by (simp only: eq)
  have m: "k mod 6 = k" using assms(4,5) by simp
  have fr: "(of_int k + f) / 6 * 6 - of_int k = f" unfolding eq by simp
  have "hsv_to_rgb ((of_int k + f) / 6) s v =
     (if k = 0 then (v, v * (1 - s * (1 - f)), v * (1 - s))
      else if k = 1 then (v * (1 - s * f), v, v * (1 - s))
      else if k = 2 then (v * (1 - s), v, v * (1 - s * (1 - f)))
      else if k = 3 then (v * (1 - s), v * (1 - s * f), v)
      else if k = 4 then (v * (1 - s * (1 - f)), v * (1 - s), v)
      else (v, v * (1 - s), v * (1 - s * f)))"
    unfolding hsv_to_rgb_def Let_def i m fr using assms(1) by (simp only: if_False)
  then show ?thesis .
qed

lemma hsv_to_rgb_full_turn: "hsv_to_rgb 1 s v = hsv_to_rgb 0 s v"
  by (simp add: hsv_to_rgb_def py_int_def Let_def)

lemma sector_algebra:
  assumes "mn < mx" "0 \<le> (mn::real)"
  shows "mx * (1 - (mx - mn) / mx) = mn"
    and "mx * (1 - (mx - mn) / mx * ((mx - x) / (mx - mn))) = x"
    and "mx * (1 - (mx - mn) / mx * (1 - (x - mn) / (mx - mn))) = x"
proof -
  have nz: "mx \<noteq> 0" "mx - mn \<noteq> 0" using assms by auto
  show "mx * (1 - (mx - mn) / mx) = mn" using nz by (simp add: field_simps)
  have "(mx - mn) / mx * ((mx - x) / (mx - mn)) = (mx - x) / mx" using nz by simp
  then show "mx * (1 - (mx - mn) / mx * ((mx - x) / (mx - mn))) = x"
    using nz by (simp add: field_simps)
  have "1 - (x - mn) / (mx - mn) = (mx - x) / (mx - mn)" using nz by (simp add: field_simps)
  moreover have "(mx - mn) / mx * ((mx - x) / (mx - mn)) = (mx - x) / mx" using nz by simp
  ultimately show "mx * (1 - (mx - mn) / mx * (1 - (x - mn) / (mx - mn))) = x"
    using nz by (simp add: field_simps)
qed

text \<open>The value of rgb_to_hsv when the channels are not all equal.\<close>

lemma rgb_to_hsv_max_r:
  assumes "g \<le> r" "b \<le> r" "min g b < r"
  shows "rgb_to_hsv r g b =
     (py_fmod (((r - b) / (r - min g b) - (r - g) / (r - min g b)) / 6) 1, (r - min g b) / r, r)"
  using assms by (auto simp add: rgb_to_hsv_def Let_def max_def min_def)

lemma rgb_to_hsv_max_g:
  assumes "r < g" "b \<le> g"
  shows "rgb_to_hsv r g b =
     (py_fmod ((2 + (g - r) / (g - min r b) - (g - b) / (g - min r b)) / 6) 1, (g - min r b) / g, g)"
  using assms by (auto simp add: rgb_to_hsv_def Let_def max_def min_def)

lemma rgb_to_hsv_max_b:
  assumes "r < b" "g < b"
  shows "rgb_to_hsv r g b =
     (py_fmod ((4 + (b - g) / (b - min r g) - (b - r) / (b - min r g)) / 6) 1, (b - min r g) / b, b)"
  using assms by (auto simp add: rgb_to_hsv_def Let_def max_def min_def)

lemma sector_even:
  assumes "mn \<le> x" "x < mx" "0 \<le> mn" "k = 0 \<or> k = 2 \<or> k = 4"
  shows "py_fmod ((of_int k + (x - mn) / (mx - mn)) / 6) 1 = (of_int k + (x - mn) / (mx - mn)) / 6"
    and "0 \<le> (of_int k + (x - mn) / (mx - mn)) / 6"
    and "(of_int k + (x - mn) / (mx - mn)) / 6 < 1"
    and "hsv_to_rgb ((of_int k + (x - mn) / (mx - mn)) / 6) ((mx - mn) / mx) mx =
          (if k = 0 then (mx, x, mn) else if k = 2 then (mn, mx, x) else (x, mn, mx))"
proof -
  define f where "f = (x - mn) / (mx - mn)"
  have lt: "mn < mx" using assms by simp
  have f0: "0 \<le> f" using assms by (simp add: f_def)
  have f1: "f < 1" using assms by (simp add: f_def)
  have k: "0 \<le> k" "k < 6" using assms(4) by auto
  have kr: "0 \<le> (of_int k :: real)" "(of_int k :: real) \<le> 4" using assms(4) by auto
  show lo: "0 \<le> (of_int k + (x - mn) / (mx - mn)) / 6"
    using f0 kr unfolding f_def by simp
  show hi: "(of_int k + (x - mn) / (mx - mn)) / 6 < 1"
    using f1 kr unfolding f_def by simp
  show "py_fmod ((of_int k + (x - mn) / (mx - mn)) / 6) 1 = (of_int k + (x - mn) / (mx - mn)) / 6"
    using lo hi by (rule py_fmod_unit)
  have s: "(mx - mn) / mx \<noteq> 0" using lt assms(3) by simp
  have p: "mx * (1 - (mx - mn) / mx) = mn"
    and t: "mx * (1 - (mx - mn) / mx * (1 - f)) = x"
    unfolding f_def using sector_algebra [OF lt assms(3)] by simp_all
  show "hsv_to_rgb ((of_int k + (x - mn) / (mx - mn)) / 6) ((mx - mn) / mx) mx =
          (if k = 0 then (mx, x, mn) else if k = 2 then (mn, mx, x) else (x, mn, mx))"
    unfolding f_def [symmetric] hsv_sector [OF s f0 f1 k] p t using assms(4) by auto
qed

lemma sector_odd:
  assumes "mn < x" "x \<le> mx" "0 \<le> mn" "k = 1 \<or> k = 3 \<or> k = 5"
  shows "py_fmod ((of_int k + (mx - x) / (mx - mn)) / 6) 1 = (of_int k + (mx - x) / (mx - mn)) / 6"
    and "0 \<le> (of_int k + (mx - x) / (mx - mn)) / 6"
    and "(of_int k + (mx - x) / (mx - mn)) / 6 < 1"
    and "hsv_to_rgb ((of_int k + (mx - x) / (mx - mn)) / 6) ((mx - mn) / mx) mx =
          (if k = 1 then (x, mx, mn) else if k = 3 then (mn, x, mx) else (mx, mn, x))"
proof -
  define f where "f = (mx - x) / (mx - mn)"
  have lt: "mn < mx" using assms by simp
  have f0: "0 \<le> f" using assms by (simp add: f_def)
  have f1: "f < 1" using assms by (simp add: f_def)
  have k: "0 \<le> k" "k < 6" using assms(4) by auto
  have kr: "0 \<le> (of_int k :: real)" "(of_int k :: real) \<le> 5" using assms(4) by auto
  show lo: "0 \<le> (of_int k + (mx - x) / (mx - mn)) / 6"
    using f0 kr unfolding f_def by simp
  show hi: "(of_int k + (mx - x) / (mx - mn)) / 6 < 1"
    using f1 kr unfolding f_def by simp
  show "py_fmod ((of_int k + (mx - x) / (mx - mn)) / 6) 1 = (of_int k + (mx - x) / (mx - mn)) / 6"
    using lo hi by (rule py_fmod_unit)
  have s: "(mx - mn) / mx \<noteq> 0" using lt assms(3) by simp
  have p: "mx * (1 - (mx - mn) / mx) = mn"
    and q: "mx * (1 - (mx - mn) / mx * f) = x"
    unfolding f_def using sector_algebra [OF lt assms(3)] by simp_all
  show "hsv_to_rgb ((of_int k + (mx - x) / (mx - mn)) / 6) ((mx - mn) / mx) mx =
          (if k = 1 then (x, mx, mn) else if k = 3 then (mn, x, mx) else (mx, mn, x))"
    unfolding f_def [symmetric] hsv_sector [OF s f0 f1 k] p q using assms(4) by auto
qed
lemma roundtrip_sector_0:
  assumes "b \<le> g" "g < r" "0 \<le> b"
  shows "\<exists>h s v. rgb_to_hsv r g b = (h, s, v) \<and> 0 \<le> h \<and> h < 1 \<and> hsv_to_rgb h s v = (r, g, b)"
proof -
  have nz: "r - b \<noteq> 0" using assms by simp
  have H: "(r - b) / (r - b) - (r - g) / (r - b) = of_int 0 + (g - b) / (r - b)"
    using nz by (simp add: field_simps)
  have mn: "min g b = b" using assms by simp
  have hv: "rgb_to_hsv r g b = (py_fmod ((of_int 0 + (g - b) / (r - b)) / 6) 1, (r - b) / r, r)"
    using rgb_to_hsv_max_r [of g r b] assms unfolding mn H by simp
  have a: "py_fmod ((of_int 0 + (g - b) / (r - b)) / 6) 1 = (of_int 0 + (g - b) / (r - b)) / 6"
    and b: "0 \<le> (of_int 0 + (g - b) / (r - b)) / 6" and c: "(of_int 0 + (g - b) / (r - b)) / 6 < 1"
    and d: "hsv_to_rgb ((of_int 0 + (g - b) / (r - b)) / 6) ((r - b) / r) r = (r, g, b)"
    using sector_even [of b g r 0] assms by simp_all
  show ?thesis using hv [unfolded a] b c d by blast
qed

lemma roundtrip_sector_2:
  assumes "r \<le> b" "b < g" "0 \<le> r"
  shows "\<exists>h s v. rgb_to_hsv r g b = (h, s, v) \<and> 0 \<le> h \<and> h < 1 \<and> hsv_to_rgb h s v = (r, g, b)"
proof -
  have nz: "g - r \<noteq> 0" using assms by simp
  have H: "2 + (g - r) / (g - r) - (g - b) / (g - r) = of_int 2 + (b - r) / (g - r)"
    using nz by (simp add: field_simps)
  have mn: "min r b = r" using assms by simp
  have hv: "rgb_to_hsv r g b = (py_fmod ((of_int 2 + (b - r) / (g - r)) / 6) 1, (g - r) / g, g)"
    using rgb_to_hsv_max_g [of r g b] assms unfolding mn H by simp
  have a: "py_fmod ((of_int 2 + (b - r) / (g - r)) / 6) 1 = (of_int 2 + (b - r) / (g - r)) / 6"
    and b: "0 \<le> (of_int 2 + (b - r) / (g - r)) / 6" and c: "(of_int 2 + (b - r) / (g - r)) / 6 < 1"
    and d: "hsv_to_rgb ((of_int 2 + (b - r) / (g - r)) / 6) ((g - r) / g) g = (r, g, b)"
    using sector_even [of r b g 2] assms by simp_all
  show ?thesis using hv [unfolded a] b c d by blast
qed

lemma roundtrip_sector_4:
  assumes "g \<le> r" "r < b" "0 \<le> g"
  shows "\<exists>h s v. rgb_to_hsv r g b = (h, s, v) \<and> 0 \<le> h \<and> h < 1 \<and> hsv_to_rgb h s v = (r, g, b)"
proof -
  have nz: "b - g \<noteq> 0" using assms by simp
  have H: "4 + (b - g) / (b - g) - (b - r) / (b - g) = of_int 4 + (r - g) / (b - g)"
    using nz by (simp add: field_simps)
  have mn: "min r g = g" using assms by simp
  have hv: "rgb_to_hsv r g b = (py_fmod ((of_int 4 + (r - g) / (b - g)) / 6) 1, (b - g) / b, b)"
    using rgb_to_hsv_max_b [of r b g] assms unfolding mn H by simp
  have a: "py_fmod ((of_int 4 + (r - g) / (b - g)) / 6) 1 = (of_int 4 + (r - g) / (b - g)) / 6"
    and b: "0 \<le> (of_int 4 + (r - g) / (b - g)) / 6" and c: "(of_int 4 + (r - g) / (b - g)) / 6 < 1"
    and d: "hsv_to_rgb ((of_int 4 + (r - g) / (b - g)) / 6) ((b - g) / b) b = (r, g, b)"
    using sector_even [of g r b 4] assms by simp_all
  show ?thesis using hv [unfolded a] b c d by blast
qed

lemma roundtrip_sector_3:
  assumes "r < g" "g < b" "0 \<le> r"
  shows "\<exists>h s v. rgb_to_hsv r g b = (h, s, v) \<and> 0 \<le> h \<and> h < 1 \<and> hsv_to_rgb h s v = (r, g, b)"
proof -
  have nz: "b - r \<noteq> 0" using assms by simp
  have H: "4 + (b - g) / (b - r) - (b - r) / (b - r) = of_int 3 + (b - g) / (b - r)"
    using nz by (simp add: field_simps)
  have mn: "min r g = r" using assms by simp
  have hv: "rgb_to_hsv r g b = (py_fmod ((of_int 3 + (b - g) / (b - r)) / 6) 1, (b - r) / b, b)"
    using rgb_to_hsv_max_b [of r b g] assms unfolding mn H by simp
  have a: "py_fmod ((of_int 3 + (b - g) / (b - r)) / 6) 1 = (of_int 3 + (b - g) / (b - r)) / 6"
    and b: "0 \<le> (of_int 3 + (b - g) / (b - r)) / 6" and c: "(of_int 3 + (b - g) / (b - r)) / 6 < 1"
    and d: "hsv_to_rgb ((of_int 3 + (b - g) / (b - r)) / 6) ((b - r) / b) b = (r, g, b)"
    using sector_odd [of r g b 3] assms by simp_all
  show ?thesis using hv [unfolded a] b c d by blast
qed

lemma roundtrip_sector_1:
  assumes "b < r" "r < g" "0 \<le> b"
  shows "\<exists>h s v. rgb_to_hsv r g b = (h, s, v) \<and> 0 \<le> h \<and> h < 1 \<and> hsv_to_rgb h s v = (r, g, b)"
proof -
  have nz: "g - b \<noteq> 0" using assms by simp
  have H: "2 + (g - r) / (g - b) - (g - b) / (g - b) = of_int 1 + (g - r) / (g - b)"
    using nz by (simp add: field_simps)
  have mn: "min r b = b" using assms by simp
  have hv: "rgb_to_hsv r g b = (py_fmod ((of_int 1 + (g - r) / (g - b)) / 6) 1, (g - b) / g, g)"
    using rgb_to_hsv_max_g [of r g b] assms unfolding mn H by simp
  have a: "py_fmod ((of_int 1 + (g - r) / (g - b)) / 6) 1 = (of_int 1 + (g - r) / (g - b)) / 6"
    and b: "0 \<le> (of_int 1 + (g - r) / (g - b)) / 6" and c: "(of_int 1 + (g - r) / (g - b)) / 6 < 1"
    and d: "hsv_to_rgb ((of_int 1 + (g - r) / (g - b)) / 6) ((g - b) / g) g = (r, g, b)"
    using sector_odd [of b r g 1] assms by simp_all
  show ?thesis using hv [unfolded a] b c d by blast
qed

lemma roundtrip_sector_5:
  assumes "g < b" "b \<le> r" "0 \<le> g"
  shows "\<exists>h s v. rgb_to_hsv r g b = (h, s, v) \<and> 0 \<le> h \<and> h < 1 \<and> hsv_to_rgb h s v = (r, g, b)"
proof -
  define f where "f = (r - b) / (r - g)"
  have nz: "r - g \<noteq> 0" using assms by simp
  have f0: "0 \<le> f" and f1: "f < 1" using assms by (simp_all add: f_def)
  have H: "(r - b) / (r - g) - (r - g) / (r - g) = f - 1"
    using nz by (simp add: f_def)
  have mn: "min g b = g" using assms by simp
  have hv: "rgb_to_hsv r g b = (py_fmod ((f - 1) / 6) 1, (r - g) / r, r)"
    using rgb_to_hsv_max_r [of g r b] assms unfolding mn H by simp
  have "py_fmod ((f - 1) / 6) 1 = (f - 1) / 6 + 1"
    using f0 f1 by (intro py_fmod_unit_neg) simp_all
  also have "\<dots> = (of_int 5 + f) / 6" by (simp add: field_simps)
  finally have a: "py_fmod ((f - 1) / 6) 1 = (of_int 5 + f) / 6" .
  have b: "0 \<le> (of_int 5 + f) / 6" and c: "(of_int 5 + f) / 6 < 1"
    and d: "hsv_to_rgb ((of_int 5 + f) / 6) ((r - g) / r) r = (r, g, b)"
    using sector_odd [of g b r 5] assms unfolding f_def by simp_all
  show ?thesis using hv [unfolded a] b c d by blast
qed

lemma roundtrip_sector_1_eq:
  assumes "b < r" "0 \<le> b"
  shows "\<exists>h s v. rgb_to_hsv r r b = (h, s, v) \<and> 0 \<le> h \<and> h < 1 \<and> hsv_to_rgb h s v = (r, r, b)"
proof -
  have nz: "r - b \<noteq> 0" using assms by simp
  have H: "(r - b) / (r - b) - (r - r) / (r - b) = of_int 1 + (r - r) / (r - b)"
    using nz by simp
  have mn: "min r b = b" using assms by simp
  have hv: "rgb_to_hsv r r b = (py_fmod ((of_int 1 + (r - r) / (r - b)) / 6) 1, (r - b) / r, r)"
    using rgb_to_hsv_max_r [of r r b] assms unfolding mn H by simp
  have a: "py_fmod ((of_int 1 + (r - r) / (r - b)) / 6) 1 = (of_int 1 + (r - r) / (r - b)) / 6"
    and b: "0 \<le> (of_int 1 + (r - r) / (r - b)) / 6" and c: "(of_int 1 + (r - r) / (r - b)) / 6 < 1"
    and d: "hsv_to_rgb ((of_int 1 + (r - r) / (r - b)) / 6) ((r - b) / r) r = (r, r, b)"
    using sector_odd [of b r r 1] assms by simp_all
  show ?thesis using hv [unfolded a] b c d by blast
qed

lemma roundtrip_sector_3_eq:
  assumes "r < g" "0 \<le> r"
  shows "\<exists>h s v. rgb_to_hsv r g g = (h, s, v) \<and> 0 \<le> h \<and> h < 1 \<and> hsv_to_rgb h s v = (r, g, g)"
proof -
  have nz: "g - r \<noteq> 0" using assms by simp
  have H: "2 + (g - r) / (g - r) - (g - g) / (g - r) = of_int 3 + (g - g) / (g - r)"
    using nz by simp
  have mn: "min r g = r" using assms by simp
  have hv: "rgb_to_hsv r g g = (py_fmod ((of_int 3 + (g - g) / (g - r)) / 6) 1, (g - r) / g, g)"
    using rgb_to_hsv_max_g [of r g g] assms unfolding mn H by simp
  have a: "py_fmod ((of_int 3 + (g - g) / (g - r)) / 6) 1 = (of_int 3 + (g - g) / (g - r)) / 6"
    and b: "0 \<le> (of_int 3 + (g - g) / (g - r)) / 6" and c: "(of_int 3 + (g - g) / (g - r)) / 6 < 1"
    and d: "hsv_to_rgb ((of_int 3 + (g - g) / (g - r)) / 6) ((g - r) / g) g = (r, g, g)"
    using sector_odd [of r g g 3] assms by simp_all
  show ?thesis using hv [unfolded a] b c d by blast
qed

lemma roundtrip_grey:
  "\<exists>h s v. rgb_to_hsv r r r = (h, s, v) \<and> 0 \<le> h \<and> h < 1 \<and> hsv_to_rgb h s v = (r, r, r)"
  by (simp add: rgb_to_hsv_def hsv_to_rgb_def)

lemma rgb_hsv_roundtrip:
  assumes "0 \<le> r" "0 \<le> g" "0 \<le> b"
  shows "\<exists>h s v. rgb_to_hsv r g b = (h, s, v) \<and> 0 \<le> h \<and> h < 1 \<and> hsv_to_rgb h s v = (r, g, b)"
proof -
  consider "r = g \<and> g = b" | "b \<le> g \<and> g < r" | "b < r \<and> r < g" | "b < r \<and> r = g"
    | "r \<le> b \<and> b < g" | "r < g \<and> g < b" | "r < g \<and> g = b" | "g \<le> r \<and> r < b"
    | "g < b \<and> b \<le> r"
    by linarith
  then show ?thesis
  proof cases
    case 1 then show ?thesis using roundtrip_grey [of r] by simp
  next
    case 2 then show ?thesis using roundtrip_sector_0 assms by blast
  next
    case 3 then show ?thesis using roundtrip_sector_1 assms by blast
  next
    case 4 then show ?thesis using roundtrip_sector_1_eq [of b r] assms by simp
  next
    case 5 then show ?thesis using roundtrip_sector_2 assms by blast
  next
    case 6 then show ?thesis using roundtrip_sector_3 assms by blast
  next
    case 7 then show ?thesis using roundtrip_sector_3_eq [of r g] assms by simp
  next
    case 8 then show ?thesis using roundtrip_sector_4 assms by blast
  next
    case 9 then show ?thesis using roundtrip_sector_5 assms by blast
  qed
qed

subsection \<open>A query at the position of a stop\<close>

lemma interpolate_hue_at_0: "0 \<le> h1 \<Longrightarrow> h1 < 1 \<Longrightarrow> interpolate_hue h1 h2 0 = h1"
  by (simp add: interpolate_hue_def Let_def)

lemma interpolate_hue_at_1:
  assumes "0 \<le> h1" "h1 < 1" "0 \<le> h2" "h2 < 1"
  shows "interpolate_hue h1 h2 1 = h2 \<or> (h2 = 0 \<and> interpolate_hue h1 h2 1 = 1)"
  using assms by (auto simp add: interpolate_hue_def Let_def)

lemma interpolate_color_at_0:
  assumes "valid_color c1"
  shows "interpolate_color c1 c2 0 = c1"
proof -
  obtain h1 s1 v1 where 1: "rgb_to_hsv (red c1) (green c1) (blue c1) = (h1, s1, v1)"
    "0 \<le> h1" "h1 < 1" "hsv_to_rgb h1 s1 v1 = (red c1, green c1, blue c1)"
    using rgb_hsv_roundtrip [of "red c1" "green c1" "blue c1"] assms
    by (auto simp: valid_color_def)
  obtain h2 s2 v2 where 2: "rgb_to_hsv (red c2) (green c2) (blue c2) = (h2, s2, v2)"
    by (metis prod_cases3)
  show ?thesis
    using 1 2 by (simp add: interpolate_color_def interpolate_hue_at_0 rgb_def)
qed

lemma interpolate_color_at_1:
  assumes "valid_color c1" "valid_color c2"
  shows "interpolate_color c1 c2 1 = c2"
proof -
  obtain h1 s1 v1 where 1: "rgb_to_hsv (red c1) (green c1) (blue c1) = (h1, s1, v1)"
    "0 \<le> h1" "h1 < 1"
    using rgb_hsv_roundtrip [of "red c1" "green c1" "blue c1"] assms
    by (auto simp: valid_color_def)
  obtain h2 s2 v2 where 2: "rgb_to_hsv (red c2) (green c2) (blue c2) = (h2, s2, v2)"
    "0 \<le> h2" "h2 < 1" "hsv_to_rgb h2 s2 v2 = (red c2, green c2, blue c2)"
    using rgb_hsv_roundtrip [of "red c2" "green c2" "blue c2"] assms
    by (auto simp: valid_color_def)
  have "hsv_to_rgb (interpolate_hue h1 h2 1) s2 v2 = (red c2, green c2, blue c2)"
    using interpolate_hue_at_1 [OF 1(2,3) 2(2,3)] 2(4) hsv_to_rgb_full_turn [of s2 v2]
    by auto
  then show ?thesis
    using 1 2 by (simp add: interpolate_color_def rgb_def)
qed

lemma find_segment_exact:
  assumes "sorted (map position xs)" "c \<in> set xs" "2 \<le> length xs"
    and "\<forall>c'\<in>set xs. valid_color (color c')"
    and "\<forall>c'\<in>set xs. position c' = position c \<longrightarrow> color c' = color c"
  shows "find_segment xs (position c) = Some (color c)"
  using assms
proof (induction xs)
  case Nil
  then show ?case by simp
next
  case (Cons c1 ys)
  from Cons.prems(3) obtain c2 cs where ys: "ys = c2 # cs"
    by (cases ys) auto
  have le12: "position c1 \<le> position c2" using Cons.prems(1) ys by simp
  have lo: "position c1 \<le> position c" using Cons.prems(1,2) by auto
  have v1: "valid_color (color c1)" and v2: "valid_color (color c2)"
    using Cons.prems(4) ys by auto
  show ?case
  proof (cases "position c \<le> position c2")
    case True
    show ?thesis
    proof (cases "position c2 - position c1 = 0")
      case True
      then have "position c1 = position c" using lo \<open>position c \<le> position c2\<close> by simp
      then have "color c1 = color c" using Cons.prems(5) by simp
      then show ?thesis using True lo \<open>position c \<le> position c2\<close> ys by simp
    next
      case False
      have "position c = position c1 \<or> position c = position c2"
      proof -
        have "c = c1 \<or> c \<in> set (c2 # cs)" using Cons.prems(2) ys by auto
        moreover have "position c2 \<le> position c" if "c \<in> set (c2 # cs)"
          using that Cons.prems(1) ys by auto
        ultimately show ?thesis using True by auto
      qed
      then show ?thesis
      proof
        assume eq: "position c = position c1"
        then have "color c1 = color c" using Cons.prems(5) by simp
        then show ?thesis
          using eq le12 False ys interpolate_color_at_0 [OF v1] by (simp add: Let_def)
      next
        assume eq: "position c = position c2"
        then have "color c2 = color c" using Cons.prems(5) ys by simp
        then show ?thesis
          using eq le12 False ys interpolate_color_at_1 [OF v1 v2] by (simp add: Let_def)
      qed
    qed
  next
    case False
    then have gt: "position c2 < position c" by simp
    then have "c \<noteq> c1" "c \<noteq> c2" using le12 by auto
    then have mem: "c \<in> set cs" using Cons.prems(2) ys by auto
    then have len: "2 \<le> length ys" using ys by (cases cs) auto
    have "find_segment ys (position c) = Some (color c)"
    proof (rule Cons.IH)
      show "sorted (map position ys)" using Cons.prems(1) by simp
      show "c \<in> set ys" using mem ys by simp
      show "2 \<le> length ys" by (rule len)
      show "\<forall>c'\<in>set ys. valid_color (color c')" using Cons.prems(4) by simp
      show "\<forall>c'\<in>set ys. position c' = position c \<longrightarrow> color c' = color c"
        using Cons.prems(5) by simp
    qed
    then show ?thesis using False ys by simp
  qed
qed

lemma gradient_exact_at_stop:
  assumes "ps nm = Some p" "ptype p = ''gradient''" "c \<in> set (colors p)"
    and "\<forall>c'\<in>set (colors p). valid_color (color c')"
    and "\<forall>c'\<in>set (colors p). position c' = position c \<longrightarrow> color c' = color c"
  shows "get_color_at_position ps nm (position c) = Inr (Some (color c))"
proof -
  define xs where "xs = sort_key position (colors p)"
  have set_xs: "set xs = set (colors p)" by (simp add: xs_def)
  have sorted_xs: "sorted (map position xs)" by (simp add: xs_def)
  have ne: "xs \<noteq> []" using assms(3) set_xs by auto
  have res: "get_color_at_position ps nm (position c) =
      (case find_segment xs (position c) of Some col \<Rightarrow> Inr (Some col)
       | None \<Rightarrow> Inr (Some (if position c > position (last xs) then color (last xs)
                              else color (hd xs))))"
    unfolding xs_def using assms(1,2) ne [unfolded xs_def]
    by (simp add: get_color_at_position_def Let_def)
  show ?thesis
  proof (cases "2 \<le> length xs")
    case True
    have "find_segment xs (position c) = Some (color c)"
      using sorted_xs assms(3) True assms(4,5) unfolding set_xs [symmetric]
      by (rule find_segment_exact)
    then show ?thesis by (simp add: res)
  next
    case False
    then obtain x where x: "xs = [x]" using ne by (cases xs) (auto simp: Suc_le_eq)
    then have "x = c" using assms(3) set_xs by auto
    then show ?thesis using x by (simp add: res)
  qed
qed

text \<open>
  C4, the claim as stated: in every gradient palette, a query at the position of any
  stop returns the colour of that stop. Two stops may share a position; then the query
  returns the first one in the sorted order (the test \<open>range_size == 0\<close>) and not the
  other: with red and blue both at position 0, the query at the position of the blue
  stop does not return blue.
\<close>

theorem gradient_shared_position:
  "get_color_at_position
     [''p'' \<mapsto> \<lparr>name = ''p'', colors = [ColorPoint Color_red 0, ColorPoint Color_blue 0],
                ptype = ''gradient'', parameters = None\<rparr>]
     ''p'' (position (ColorPoint Color_blue 0))
   \<noteq> Inr (Some (color (ColorPoint Color_blue 0)))"
  by (simp add: get_color_at_position_def ColorPoint_def Color_red_def Color_blue_def rgb_def)

text \<open>
  C4, amended: in a gradient palette whose colours have channels in \<open>[0, 1]\<close>, a query
  at the position of a stop returns the colour of that stop exactly, provided that every
  stop at that position has that colour (in particular when no two stops share a
  position). The builtin palette "rainbow" returns red at position 0 and green at
  position 50.
\<close>

theorem gradient_stop_exact:
  assumes "ps nm = Some p" "ptype p = ''gradient''" "c \<in> set (colors p)"
    and "\<forall>c'\<in>set (colors p). valid_color (color c')"
    and "\<forall>c'\<in>set (colors p). position c' = position c \<longrightarrow> color c' = color c"
  shows "get_color_at_position ps nm (position c) = Inr (Some (color c))
       \<and> get_color_at_position init_default_palettes ''rainbow'' 0 = Inr (Some Color_red)
       \<and> get_color_at_position init_default_palettes ''rainbow'' 50 = Inr (Some Color_green)"
proof -
  have "get_color_at_position init_default_palettes ''rainbow'' 0 = Inr (Some Color_red)"
    by code_simp
  moreover
  have "get_color_at_position init_default_palettes ''rainbow'' 50 = Inr (Some Color_green)"
    by code_simp
  moreover
  have "get_color_at_position ps nm (position c) = Inr (Some (color c))"
    using assms by (rule gradient_exact_at_stop [where ps = ps and nm = nm])
  ultimately show ?thesis by simp
qed

theorem gradient_stop_exact_witness:
  "get_color_at_position init_default_palettes ''rainbow''
     (position (ColorPoint Color_indigo (833 / 10)))
     = Inr (Some (color (ColorPoint Color_indigo (833 / 10))))
   \<and> get_color_at_position init_default_palettes ''rainbow'' 0 = Inr (Some Color_red)
   \<and> get_color_at_position init_default_palettes ''rainbow'' 50 = Inr (Some Color_green)"
proof -
  have 1: "init_default_palettes ''rainbow'' = Some rainbow"
    by (simp add: init_default_palettes_def)
  have 2: "ptype rainbow = ''gradient''" by (simp add: rainbow_def)
  have 3: "ColorPoint Color_indigo (833 / 10) \<in> set (colors rainbow)"
    by (simp add: rainbow_def)
  have 4: "\<forall>c'\<in>set (colors rainbow). valid_color (color c')"
    by (simp add: rainbow_def ColorPoint_def valid_color_def rgb_def Color_red_def
        Color_orange_def Color_yellow_def Color_green_def Color_blue_def Color_indigo_def
        Color_violet_def)
  have 5: "\<forall>c'\<in>set (colors rainbow).
             position c' = position (ColorPoint Color_indigo (833 / 10))
             \<longrightarrow> color c' = color (ColorPoint Color_indigo (833 / 10))"
    by (simp add: rainbow_def ColorPoint_def)
  show ?thesis
    using 1 2 3 4 5
    by (rule gradient_stop_exact [where ps = init_default_palettes and nm = "''rainbow''"])
qed

section \<open>Properties of the frame generators\<close>

text \<open>
  A lookup in a static or gradient palette with at least one stop returns a colour, at
  every position; so does every lookup in the builtin palette "rainbow".
\<close>

lemma lookup_returns_color:
  assumes "ps nm = Some p" "ptype p = ''static'' \<or> ptype p = ''gradient''" "colors p \<noteq> []"
  shows "\<exists>c. get_color_at_position ps nm pos = Inr (Some c)"
proof -
  obtain x xs where xs: "colors p = x # xs" using assms(3) by (cases "colors p") auto
  have ne: "sort_key position (colors p) \<noteq> []"
    using assms(3) by (metis length_sort length_0_conv)
  show ?thesis
    using assms(1,2) xs ne
    by (auto simp add: get_color_at_position_def Let_def split: option.split)
qed

lemma rainbow_lookup:
  "\<exists>c. get_color_at_position init_default_palettes ''rainbow'' pos = Inr (Some c)"
  by (rule lookup_returns_color [where p = rainbow])
     (simp_all add: init_default_palettes_def rainbow_def)

lemma apply_intensity_spec: "apply_intensity (Some c) n = Inr (spec_scaled c n)"
  by (simp add: apply_intensity_def spec_scaled_def mult_ac)

lemma for_each_enumerate:
  assumes "\<And>i u. i < length xs \<Longrightarrow> body (n + i, xs ! i) u = Inr (g (n + i) u)"
  shows "for_each body (enumerate n xs) u0 = Inr (fold g [n..<n + length xs] u0)"
  using assms
proof (induction xs arbitrary: n u0)
  case Nil
  then show ?case by simp
next
  case (Cons x xs)
  have hd: "body (n, x) u0 = Inr (g n u0)" using Cons.prems [of 0 u0] by simp
  have tl: "for_each body (enumerate (Suc n) xs) (g n u0)
      = Inr (fold g [Suc n..<Suc n + length xs] (g n u0))"
  proof (rule Cons.IH)
    fix i u assume "i < length xs"
    then show "body (Suc n + i, xs ! i) u = Inr (g (Suc n + i) u)"
      using Cons.prems [of "Suc i" u] by simp
  qed
  have "[n..<n + length (x # xs)] = n # [Suc n..<Suc n + length xs]"
    by (simp add: upt_rec)
  then show ?case using hd tl by simp
qed

lemma mirror_fold:
  fixes ids :: "string list" and U :: "nat \<Rightarrow> 'v" and m :: bool
  defines "N \<equiv> length ids"
  defines "g \<equiv> \<lambda>i (u :: string \<rightharpoonup> 'v).
     if m \<and> N div 2 \<le> i then (u(ids ! i \<mapsto> U i))(ids ! (N - 1 - i) \<mapsto> U i)
     else u(ids ! i \<mapsto> U i)"
  assumes "distinct ids" "k \<le> N"
  shows "(\<forall>x. x \<notin> set ids \<longrightarrow> fold g [0..<k] Map.empty x = None)
       \<and> (\<forall>j<N. fold g [0..<k] Map.empty (ids ! j) =
             (if m \<and> N div 2 \<le> N - 1 - j \<and> N - 1 - j < k then Some (U (N - 1 - j))
              else if j < k then Some (U j) else None))"
  using assms(4)
proof (induction k)
  case 0
  then show ?case by simp
next
  case (Suc k)
  define M where "M = fold g [0..<k] Map.empty"
  have kN: "k < N" using Suc.prems by simp
  have IH1: "\<And>x. x \<notin> set ids \<Longrightarrow> M x = None"
    and IH2: "\<And>j. j < N \<Longrightarrow> M (ids ! j) =
             (if m \<and> N div 2 \<le> N - 1 - j \<and> N - 1 - j < k then Some (U (N - 1 - j))
              else if j < k then Some (U j) else None)"
    using Suc.IH kN unfolding M_def by simp_all
  have step: "fold g [0..<Suc k] Map.empty = g k M" by (simp add: M_def)
  have idx: "\<And>i j. i < N \<Longrightarrow> j < N \<Longrightarrow> (ids ! i = ids ! j) = (i = j)"
    using assms(3) unfolding N_def by (simp add: nth_eq_iff_index_eq)
  have mem: "\<And>i. i < N \<Longrightarrow> ids ! i \<in> set ids" unfolding N_def by simp
  have mk: "N - 1 - k < N" using kN by simp
  have out: "g k M x = None" if "x \<notin> set ids" for x
  proof -
    have "x \<noteq> ids ! k" "x \<noteq> ids ! (N - 1 - k)" using that mem kN mk by auto
    then show ?thesis using IH1 [OF that] by (simp add: g_def)
  qed
  have inn: "g k M (ids ! j) =
             (if m \<and> N div 2 \<le> N - 1 - j \<and> N - 1 - j < Suc k then Some (U (N - 1 - j))
              else if j < Suc k then Some (U j) else None)" if j: "j < N" for j
  proof (cases "m \<and> N div 2 \<le> k")
    case True
    then have gk: "g k M = (M(ids ! k \<mapsto> U k))(ids ! (N - 1 - k) \<mapsto> U k)"
      by (simp add: g_def)
    consider "j = N - 1 - k" | "j = k" "j \<noteq> N - 1 - k" | "j \<noteq> k" "j \<noteq> N - 1 - k" by blast
    then show ?thesis
    proof cases
      case 1
      then have "N - 1 - j = k" using kN by simp
      then show ?thesis using 1 True by (simp add: gk)
    next
      case 2
      have "\<not> (N div 2 \<le> N - 1 - j \<and> N - 1 - j < Suc k)"
        using 2 True kN by auto
      then show ?thesis using 2 idx [OF j mk] by (auto simp add: gk)
    next
      case 3
      have "N - 1 - j \<noteq> k" using 3 j kN by auto
      then have "(N - 1 - j < Suc k) = (N - 1 - j < k)" "(j < Suc k) = (j < k)"
        using 3 by auto
      then show ?thesis
        using 3 idx [OF j kN] idx [OF j mk] IH2 [OF j] by (simp add: gk)
    qed
  next
    case False
    then have gk: "g k M = M(ids ! k \<mapsto> U k)" by (auto simp add: g_def)
    show ?thesis
    proof (cases "j = k")
      case True
      have "\<not> (m \<and> N div 2 \<le> N - 1 - j \<and> N - 1 - j < Suc k)"
        using True False kN by auto
      then show ?thesis using True by (auto simp add: gk)
    next
      case ne: False
      have "\<not> (m \<and> N div 2 \<le> N - 1 - j \<and> N - 1 - j = k)"
        using False by auto
      then have "(m \<and> N div 2 \<le> N - 1 - j \<and> N - 1 - j < Suc k)
               = (m \<and> N div 2 \<le> N - 1 - j \<and> N - 1 - j < k)"
        by (auto simp: less_Suc_eq)
      moreover have "(j < Suc k) = (j < k)" using ne by auto
      ultimately show ?thesis
        using ne idx [OF j kN] IH2 [OF j] by (simp add: gk)
    qed
  qed
  show ?case unfolding step using out inn by blast
qed

lemma active_lights_spec: "active_lights N config elapsed = spec_activeCount N config elapsed"
proof -
  define x where "x = elapsed * (real_of_int (speed config) / 50) * 2"
  define m where "m = int N + 1"
  have m: "0 < m" by (simp add: m_def)
  have rm: "real (N + 1) = real_of_int m" by (simp add: m_def)
  define k where "k = \<lfloor>x / real_of_int m\<rfloor>"
  have k: "k = \<lfloor>x\<rfloor> div m" unfolding k_def using m by (intro floor_divide_real_eq_div) simp
  have "real_of_int k * real_of_int m \<le> x"
    unfolding k_def using m by (intro floor_divide_lower) simp
  then have nn: "0 \<le> x - real_of_int m * real_of_int k" by (simp add: mult.commute)
  have "py_int (py_fmod x (real (N + 1))) = \<lfloor>x - real_of_int m * real_of_int k\<rfloor>"
    unfolding rm py_fmod_def py_int_def k_def [symmetric] using nn by (simp only: if_True)
  also have "\<dots> = \<lfloor>x - real_of_int (m * k)\<rfloor>" by simp
  also have "\<dots> = \<lfloor>x\<rfloor> - m * k" by (rule floor_diff_of_int)
  also have "\<dots> = \<lfloor>x\<rfloor> mod m" unfolding k by (rule minus_mult_div_eq_mod)
  finally show ?thesis
    unfolding active_lights_def spec_activeCount_def spec_speedFactor_def Let_def x_def m_def .
qed


lemma rainbow_frame_run:
  assumes col: "\<And>i. get_color_at_position ps ''rainbow''
      (spec_rainbow_position (length (light_ids sq)) config elapsed i) = Inr (Some (col i))"
  shows "RainbowEffect_generate_frame ps sq config elapsed =
           Inr (fold (spec_rainbow_assign ps sq config elapsed)
                  [0..<length (light_ids sq)] Map.empty)"
proof -
  have body: "rainbow_body ps sq config (elapsed * (real_of_int (speed config) / 50))
                (0 + i, light_ids sq ! i) u
              = Inr (spec_rainbow_assign ps sq config elapsed (0 + i) u)"
    if "i < length (light_ids sq)" for i u
    unfolding rainbow_body_def spec_rainbow_assign_def spec_rainbow_update_def Let_def
      prod.case add_0
      col [of i, unfolded spec_rainbow_position_def spec_speedFactor_def Let_def] col [of i]
    by (simp add: apply_intensity_spec)
  show ?thesis
    unfolding RainbowEffect_generate_frame_def Let_def
    using for_each_enumerate [of "light_ids sq" _ 0 "spec_rainbow_assign ps sq config elapsed",
        OF body] by simp
qed

lemma rainbow_frame_closed:
  fixes sq :: LightSequence and config :: EffectConfig
  defines "ids \<equiv> light_ids sq" and "N \<equiv> length (light_ids sq)"
  assumes upd: "\<And>i. spec_rainbow_update ps N config elapsed i = Some (U i)"
    and dist: "distinct (light_ids sq)"
  shows "(\<forall>x. x \<notin> set ids \<longrightarrow>
            fold (spec_rainbow_assign ps sq config elapsed) [0..<N] Map.empty x = None)
       \<and> (\<forall>j<N. fold (spec_rainbow_assign ps sq config elapsed) [0..<N] Map.empty (ids ! j) =
             Some (U (if mirror config \<and> N div 2 \<le> N - 1 - j then N - 1 - j else j)))"
proof -
  define g where "g = (\<lambda>i (u :: frame).
     if mirror config \<and> length ids div 2 \<le> i
     then (u(ids ! i \<mapsto> U i))(ids ! (length ids - 1 - i) \<mapsto> U i)
     else u(ids ! i \<mapsto> U i))"
  have g: "spec_rainbow_assign ps sq config elapsed = g"
    by (rule ext, rule ext)
       (simp add: spec_rainbow_assign_def Let_def g_def upd [unfolded N_def] ids_def)
  have "(\<forall>x. x \<notin> set ids \<longrightarrow> fold g [0..<N] Map.empty x = None)
       \<and> (\<forall>j<length ids. fold g [0..<N] Map.empty (ids ! j) =
             (if mirror config \<and> length ids div 2 \<le> length ids - 1 - j \<and> length ids - 1 - j < N
              then Some (U (length ids - 1 - j))
              else if j < N then Some (U j) else None))"
    unfolding g_def
    by (rule mirror_fold) (use dist in \<open>simp_all add: ids_def N_def\<close>)
  then show ?thesis unfolding g by (auto simp add: N_def ids_def)
qed

lemma wipe_frame_run:
  assumes pal: "ps (palette_name config) = Some p"
    and col: "\<And>pos. get_color_at_position ps (palette_name config) pos = Inr (Some (col pos))"
  shows "ColorWipeEffect_generate_frame ps sq config elapsed =
           Inr (fold (spec_wipe_assign ps sq config elapsed)
                  [0..<length (light_ids sq)] Map.empty)"
proof -
  define N where "N = length (light_ids sq)"
  have idx: "(if reverse config then int N - 1 - int j else int j)
               = int (if reverse config then N - 1 - j else j)" if "j < N" for j
    using that by auto
  have body: "wipe_body ps sq config (active_lights N config elapsed) (0 + j, light_ids sq ! j) u
                = Inr (spec_wipe_assign ps sq config elapsed (0 + j) u)"
    if "j < length (light_ids sq)" for j u
  proof -
    have j: "j < N" using that by (simp add: N_def)
    show ?thesis
      unfolding wipe_body_def spec_wipe_assign_def Let_def prod.case add_0 N_def [symmetric]
        idx [OF j] active_lights_spec
      by (simp add: col apply_intensity_spec spec_wipe_update_def Let_def)
  qed
  show ?thesis
    unfolding ColorWipeEffect_generate_frame_def Let_def N_def [symmetric]
    using for_each_enumerate [of "light_ids sq" _ 0 "spec_wipe_assign ps sq config elapsed",
        OF body] pal by (simp add: N_def)
qed

lemma wipe_frame_closed:
  fixes sq :: LightSequence and config :: EffectConfig
  defines "ids \<equiv> light_ids sq" and "N \<equiv> length (light_ids sq)"
  assumes upd: "\<And>j. spec_wipe_update ps N config elapsed j = Some (U j)"
    and dist: "distinct (light_ids sq)"
  shows "(\<forall>x. x \<notin> set ids \<longrightarrow>
            fold (spec_wipe_assign ps sq config elapsed) [0..<N] Map.empty x = None)
       \<and> (\<forall>j<N. fold (spec_wipe_assign ps sq config elapsed) [0..<N] Map.empty (ids ! j)
                    = Some (U j))"
proof -
  define g where "g = (\<lambda>i (u :: frame).
     if False \<and> length ids div 2 \<le> i
     then (u(ids ! i \<mapsto> U i))(ids ! (length ids - 1 - i) \<mapsto> U i)
     else u(ids ! i \<mapsto> U i))"
  have g: "spec_wipe_assign ps sq config elapsed = g"
    by (rule ext, rule ext) (simp add: spec_wipe_assign_def g_def upd [unfolded N_def] ids_def)
  have "(\<forall>x. x \<notin> set ids \<longrightarrow> fold g [0..<N] Map.empty x = None)
       \<and> (\<forall>j<length ids. fold g [0..<N] Map.empty (ids ! j) =
             (if False \<and> length ids div 2 \<le> length ids - 1 - j \<and> length ids - 1 - j < N
              then Some (U (length ids - 1 - j))
              else if j < N then Some (U j) else None))"
    unfolding g_def
    by (rule mirror_fold) (use dist in \<open>simp_all add: ids_def N_def\<close>)
  then show ?thesis unfolding g by (auto simp add: N_def ids_def)
qed

lemma dom_from_nth:
  assumes "\<forall>x. x \<notin> set ids \<longrightarrow> fr x = None" "\<forall>j<length ids. fr (ids ! j) \<noteq> None"
  shows "dom fr = set ids"
proof
  show "dom fr \<subseteq> set ids" using assms(1) by (auto simp: dom_def)
  show "set ids \<subseteq> dom fr" using assms(2) by (auto simp: dom_def in_set_conv_nth)
qed


text \<open>
  C5. For every sequence of \<open>N\<close> lights, every configuration and every elapsed time the
  rainbow effect returns a frame and raises nothing. The frame is the result of the
  assignments of the specification, made for \<open>i = 0, \<dots>, N - 1\<close> in this order: light
  \<open>i\<close> gets the colour of the palette "rainbow" at the position
  \<open>((i/N)*100 + elapsedSeconds*(speed/50)*20) mod 100\<close>, or 100 minus it with \<open>reverse\<close>,
  each channel scaled by \<open>intensity/100\<close> and truncated; with \<open>mirror\<close>, for
  \<open>i \<ge> N div 2\<close>, light \<open>N - 1 - i\<close> gets the same update. When the light ids are
  distinct, this is the frame that \<open>spec_rainbow_frame\<close> describes light by light. For
  \<open>N = 4\<close>, speed 50 and elapsed time 0 the positions are 0, 25, 50 and 75, and the
  palette has red at 0 and green at 50.
\<close>

theorem rainbow_frame_as_specified:
  "RainbowEffect_generate_frame init_default_palettes sq config elapsed =
     Inr (fold (spec_rainbow_assign init_default_palettes sq config elapsed)
            [0..<length (light_ids sq)] Map.empty)
   \<and> (distinct (light_ids sq) \<longrightarrow>
        spec_rainbow_frame init_default_palettes sq config elapsed
          (fold (spec_rainbow_assign init_default_palettes sq config elapsed)
             [0..<length (light_ids sq)] Map.empty))
   \<and> map (spec_rainbow_position 4 EffectConfig_default 0) [0, 1, 2, 3] = [0, 25, 50, 75]
   \<and> get_color_at_position init_default_palettes ''rainbow'' 0 = Inr (Some Color_red)
   \<and> get_color_at_position init_default_palettes ''rainbow'' 50 = Inr (Some Color_green)"
proof -
  define N where "N = length (light_ids sq)"
  define fr where
    "fr = fold (spec_rainbow_assign init_default_palettes sq config elapsed) [0..<N] Map.empty"
  have "\<forall>pos. \<exists>c. get_color_at_position init_default_palettes ''rainbow'' pos = Inr (Some c)"
    using rainbow_lookup by blast
  then obtain col where
    col: "\<And>pos. get_color_at_position init_default_palettes ''rainbow'' pos = Inr (Some (col pos))"
    by metis
  define U where "U i = [(''rgb_color'',
      spec_scaled (col (spec_rainbow_position N config elapsed i)) (intensity config))]" for i
  have upd: "spec_rainbow_update init_default_palettes N config elapsed i = Some (U i)" for i
    by (simp add: spec_rainbow_update_def col U_def)
  have run: "RainbowEffect_generate_frame init_default_palettes sq config elapsed = Inr fr"
    unfolding fr_def N_def by (rule rainbow_frame_run) (rule col)
  have spec: "spec_rainbow_frame init_default_palettes sq config elapsed fr"
    if dist: "distinct (light_ids sq)"
  proof -
    have cl: "(\<forall>x. x \<notin> set (light_ids sq) \<longrightarrow> fr x = None)
       \<and> (\<forall>j<N. fr (light_ids sq ! j) =
             Some (U (if mirror config \<and> N div 2 \<le> N - 1 - j then N - 1 - j else j)))"
      unfolding fr_def N_def
      by (rule rainbow_frame_closed) (use upd dist in \<open>simp_all add: N_def\<close>)
    then have dom: "dom fr = set (light_ids sq)"
      by (intro dom_from_nth) (auto simp: N_def)
    have plain: "fr (light_ids sq ! i) = Some (U i)" if "\<not> mirror config" "i < N" for i
      using cl that by simp
    have mirrored: "fr (light_ids sq ! i) = Some (U i)
                  \<and> fr (light_ids sq ! (N - 1 - i)) = Some (U i)"
      if "mirror config" "i < N" "N div 2 \<le> i" for i
    proof
      have "N div 2 \<le> N - 1 - i \<Longrightarrow> N - 1 - i = i" using that by linarith
      then show "fr (light_ids sq ! i) = Some (U i)" using cl that by auto
      have "N - 1 - i < N" "N - 1 - (N - 1 - i) = i" using that by auto
      then show "fr (light_ids sq ! (N - 1 - i)) = Some (U i)" using cl that by auto
    qed
    show ?thesis
      unfolding spec_rainbow_frame_def Let_def N_def [symmetric] upd
      using dom plain mirrored by auto
  qed
  have "map (spec_rainbow_position 4 EffectConfig_default 0) [0, 1, 2, 3] = [0, 25, 50, 75]"
    by (simp add: spec_rainbow_position_def spec_speedFactor_def EffectConfig_default_def
        py_fmod_def Let_def)
  moreover
  have "get_color_at_position init_default_palettes ''rainbow'' 0 = Inr (Some Color_red)"
    by code_simp
  moreover
  have "get_color_at_position init_default_palettes ''rainbow'' 50 = Inr (Some Color_green)"
    by code_simp
  ultimately show ?thesis using run spec unfolding fr_def N_def by blast
qed

text \<open>
  The same at four lights with \<open>mirror\<close> set: lights 0 and 1 show what was computed for
  lights 3 and 2.
\<close>

theorem rainbow_frame_as_specified_witness:
  "distinct (light_ids (new_LightSequence ''strip'' [''a'', ''b'', ''c'', ''d'']))
   \<and> spec_rainbow_frame init_default_palettes
        (new_LightSequence ''strip'' [''a'', ''b'', ''c'', ''d''])
        (EffectConfig_default\<lparr>mirror := True\<rparr>) 0
        (fold (spec_rainbow_assign init_default_palettes
                 (new_LightSequence ''strip'' [''a'', ''b'', ''c'', ''d''])
                 (EffectConfig_default\<lparr>mirror := True\<rparr>) 0)
           [0..<length (light_ids (new_LightSequence ''strip'' [''a'', ''b'', ''c'', ''d'']))]
           Map.empty)
   \<and> (case RainbowEffect_generate_frame init_default_palettes
              (new_LightSequence ''strip'' [''a'', ''b'', ''c'', ''d''])
              (EffectConfig_default\<lparr>mirror := True\<rparr>) 0 of
         Inl e \<Rightarrow> False
       | Inr fr \<Rightarrow> map fr [''a'', ''b'', ''c'', ''d''] =
           [Some [(''rgb_color'', [55, 0, 192])], Some [(''rgb_color'', [0, 128, 0])],
            Some [(''rgb_color'', [0, 128, 0])], Some [(''rgb_color'', [55, 0, 192])]])"
proof -
  have d: "distinct (light_ids (new_LightSequence ''strip'' [''a'', ''b'', ''c'', ''d'']))"
    by (simp add: new_LightSequence_def)
  have v: "(case RainbowEffect_generate_frame init_default_palettes
              (new_LightSequence ''strip'' [''a'', ''b'', ''c'', ''d''])
              (EffectConfig_default\<lparr>mirror := True\<rparr>) 0 of
         Inl e \<Rightarrow> False
       | Inr fr \<Rightarrow> map fr [''a'', ''b'', ''c'', ''d''] =
           [Some [(''rgb_color'', [55, 0, 192])], Some [(''rgb_color'', [0, 128, 0])],
            Some [(''rgb_color'', [0, 128, 0])], Some [(''rgb_color'', [55, 0, 192])]])"
    by code_simp
  show ?thesis
    using rainbow_frame_as_specified [of "new_LightSequence ''strip'' [''a'', ''b'', ''c'', ''d'']"
        "EffectConfig_default\<lparr>mirror := True\<rparr>" 0] d v
    by blast
qed

text \<open>
  C6, the claim as stated: for every configuration the colour wipe lights the first
  \<open>activeCount\<close> lights. The effect first reads \<open>palettes[config.palette_name]\<close>: with
  a palette name that is not registered the call raises KeyError and there is no frame.
\<close>

theorem wipe_unknown_palette:
  "ColorWipeEffect_generate_frame init_default_palettes
     (new_LightSequence ''strip'' [''a'', ''b'', ''c'', ''d'', ''e''])
     (EffectConfig_default\<lparr>palette_name := ''sunset''\<rparr>) 1
   = Inl (KeyError ''sunset'')"
  by (simp add: ColorWipeEffect_generate_frame_def init_default_palettes_def
      EffectConfig_default_def)

text \<open>
  C6, amended: for every sequence of \<open>N\<close> lights, every elapsed time and every
  configuration whose palette is a registered static or gradient palette with at least
  one stop, the colour wipe returns a frame and raises nothing. The number of active
  lights that the code computes is \<open>floor(elapsedSeconds*(speed/50)*2) mod (N+1)\<close>. The
  frame is the result of the assignments of the specification: with \<open>i\<close> the index of
  the light, reversed first if \<open>reverse\<close> is set, the light gets the palette colour at
  position \<open>(i/N)*100\<close>, scaled by the intensity, if \<open>i < activeCount\<close>, and all
  channels zero otherwise; when the light ids are distinct this is the frame that
  \<open>spec_wipe_frame\<close> describes light by light. For \<open>N = 5\<close>, speed 50 and elapsed time
  1 the count is 2.
\<close>

theorem wipe_frame_as_specified:
  assumes "ps (palette_name config) = Some p"
    and "ptype p = ''static'' \<or> ptype p = ''gradient''" "colors p \<noteq> []"
  shows "ColorWipeEffect_generate_frame ps sq config elapsed =
           Inr (fold (spec_wipe_assign ps sq config elapsed)
                  [0..<length (light_ids sq)] Map.empty)
       \<and> (distinct (light_ids sq) \<longrightarrow>
            spec_wipe_frame ps sq config elapsed
              (fold (spec_wipe_assign ps sq config elapsed)
                 [0..<length (light_ids sq)] Map.empty))
       \<and> active_lights (length (light_ids sq)) config elapsed
           = spec_activeCount (length (light_ids sq)) config elapsed
       \<and> spec_activeCount 5 EffectConfig_default 1 = 2"
proof -
  define N where "N = length (light_ids sq)"
  define fr where "fr = fold (spec_wipe_assign ps sq config elapsed) [0..<N] Map.empty"
  have "\<forall>pos. \<exists>c. get_color_at_position ps (palette_name config) pos = Inr (Some c)"
    using lookup_returns_color [where ps = ps and nm = "palette_name config", OF assms]
    by blast
  then obtain col where
    col: "\<And>pos. get_color_at_position ps (palette_name config) pos = Inr (Some (col pos))"
    by metis
  have run: "ColorWipeEffect_generate_frame ps sq config elapsed = Inr fr"
    unfolding fr_def N_def using assms(1) col by (rule wipe_frame_run)
  have "\<exists>v. spec_wipe_update ps N config elapsed j = Some v" for j
    by (simp add: spec_wipe_update_def Let_def col)
  then obtain U where upd: "\<And>j. spec_wipe_update ps N config elapsed j = Some (U j)"
    by metis
  have spec: "spec_wipe_frame ps sq config elapsed fr" if dist: "distinct (light_ids sq)"
  proof -
    have cl: "(\<forall>x. x \<notin> set (light_ids sq) \<longrightarrow> fr x = None)
           \<and> (\<forall>j<N. fr (light_ids sq ! j) = Some (U j))"
      unfolding fr_def N_def
      by (rule wipe_frame_closed) (use upd dist in \<open>simp_all add: N_def\<close>)
    then have "dom fr = set (light_ids sq)"
      by (intro dom_from_nth) (auto simp: N_def)
    then show ?thesis
      using cl upd by (simp add: spec_wipe_frame_def Let_def N_def)
  qed
  have "spec_activeCount 5 EffectConfig_default 1 = 2"
    by (simp add: spec_activeCount_def spec_speedFactor_def EffectConfig_default_def)
  then show ?thesis
    using run spec active_lights_spec unfolding fr_def N_def by blast
qed

text \<open>
  The same at five lights with the default configuration after one second: lights 0 and
  1 are lit, lights 2, 3 and 4 are off.
\<close>

theorem wipe_frame_as_specified_witness:
  "spec_wipe_frame init_default_palettes
        (new_LightSequence ''strip'' [''a'', ''b'', ''c'', ''d'', ''e'']) EffectConfig_default 1
        (fold (spec_wipe_assign init_default_palettes
                 (new_LightSequence ''strip'' [''a'', ''b'', ''c'', ''d'', ''e''])
                 EffectConfig_default 1)
           [0..<length (light_ids (new_LightSequence ''strip'' [''a'', ''b'', ''c'', ''d'', ''e'']))]
           Map.empty)
   \<and> (case ColorWipeEffect_generate_frame init_default_palettes
              (new_LightSequence ''strip'' [''a'', ''b'', ''c'', ''d'', ''e''])
              EffectConfig_default 1 of
         Inl e \<Rightarrow> False
       | Inr fr \<Rightarrow> map fr [''a'', ''b'', ''c'', ''d'', ''e''] =
           [Some [(''rgb_color'', [255, 0, 0])], Some [(''rgb_color'', [255, 183, 0])],
            Some [(''rgb_color'', [0, 0, 0])], Some [(''rgb_color'', [0, 0, 0])],
            Some [(''rgb_color'', [0, 0, 0])]])"
proof -
  have p: "init_default_palettes (palette_name EffectConfig_default) = Some rainbow"
    by (simp add: init_default_palettes_def EffectConfig_default_def)
  have t: "ptype rainbow = ''static'' \<or> ptype rainbow = ''gradient''"
    and c: "colors rainbow \<noteq> []"
    by (simp_all add: rainbow_def)
  have d: "distinct (light_ids (new_LightSequence ''strip'' [''a'', ''b'', ''c'', ''d'', ''e'']))"
    by (simp add: new_LightSequence_def)
  have v: "(case ColorWipeEffect_generate_frame init_default_palettes
              (new_LightSequence ''strip'' [''a'', ''b'', ''c'', ''d'', ''e''])
              EffectConfig_default 1 of
         Inl e \<Rightarrow> False
       | Inr fr \<Rightarrow> map fr [''a'', ''b'', ''c'', ''d'', ''e''] =
           [Some [(''rgb_color'', [255, 0, 0])], Some [(''rgb_color'', [255, 183, 0])],
            Some [(''rgb_color'', [0, 0, 0])], Some [(''rgb_color'', [0, 0, 0])],
            Some [(''rgb_color'', [0, 0, 0])]])"
    by code_simp
  show ?thesis
    using wipe_frame_as_specified [where ps = init_default_palettes and p = rainbow
        and config = EffectConfig_default and elapsed = 1
        and sq = "new_LightSequence ''strip'' [''a'', ''b'', ''c'', ''d'', ''e'']", OF p t c] d v
    by blast
qed


text \<open>
  C10. The frame of the rainbow effect does not depend on \<open>config.palette_name\<close>: two
  configurations that differ in that field only give the same result, whatever the
  palettes, the sequence and the elapsed time are. The effect always queries the palette
  "rainbow".
\<close>

theorem rainbow_frame_ignores_palette_name:
  "RainbowEffect_generate_frame ps sq (config\<lparr>palette_name := p\<rparr>) elapsed
   = RainbowEffect_generate_frame ps sq (config\<lparr>palette_name := q\<rparr>) elapsed"
proof -
  have "rainbow_body ps sq (config\<lparr>palette_name := p\<rparr>) t
      = rainbow_body ps sq (config\<lparr>palette_name := q\<rparr>) t" for t
    by (rule ext, rule ext) (simp add: rainbow_body_def Let_def split: prod.split sum.split)
  then show ?thesis by (simp add: RainbowEffect_generate_frame_def)
qed

end
